theory Spec2Isabelle
  imports Complex_Main "HOL-Library.AList"
begin

section \<open>Data model of the auto-route library\<close>

text \<open>
  The library works on JavaScript numbers. The definitions come in two parts. In the first
  part coordinates, radii and distances are exact reals, cell coordinates and counts are
  integers, and the value \<open>Infinity\<close>, which the code uses as an "unbounded" limit, is a
  constructor of its own; rounding is outside that model, which carries the properties
  that do not depend on arithmetic. The second part follows the source again in the
  arithmetic of IEEE doubles.

  \<open>XY\<close> is the source's \<open>{x, y}\<close>; \<open>SpawnXYZ\<close> extends it by \<open>id\<close> and \<open>z\<close>, so
  that a spawn can be passed wherever an \<open>XY\<close> is expected, as in the source.
  The fields are called \<open>px\<close>, \<open>py\<close>, \<open>pid\<close>, \<open>pz\<close> (\<open>id\<close> is a HOL constant).
\<close>

record XY =
  px :: real
  py :: real

record SpawnXYZ = XY +
  pid :: int
  pz :: real

text \<open>A finite number or \<open>Infinity\<close>, with the comparisons the code makes against it.\<close>

datatype limit = Finite real | Infinity

fun le_limit :: "real \<Rightarrow> limit \<Rightarrow> bool" where
  "le_limit v (Finite b) = (v \<le> b)"
| "le_limit v Infinity = True"

fun lt_limit :: "real \<Rightarrow> limit \<Rightarrow> bool" where
  "lt_limit v (Finite b) = (v < b)"
| "lt_limit v Infinity = True"

fun gt_limit :: "real \<Rightarrow> limit \<Rightarrow> bool" where
  "gt_limit v (Finite b) = (v > b)"
| "gt_limit v Infinity = False"

text \<open>
  The spatial index: \<open>cells\<close> is the source's \<open>Map\<close>, kept as an association list in
  insertion order (\<open>get\<close> is \<open>map_of\<close>, \<open>set\<close> is \<open>AList.update\<close>, \<open>size\<close> is the length).
  The key of a cell is the string \<open>`${cx},${cy}`\<close> of the source: the two cell
  coordinates in decimal, a minus sign before a negative one, separated by a comma.
\<close>

type_synonym cell = string

record 'a SpatialIndex =
  cellSize :: real
  cells :: "(cell \<times> 'a list) list"

definition digitChar :: "nat \<Rightarrow> char" where
  "digitChar d = ''0123456789'' ! d"

fun digitsOf :: "nat \<Rightarrow> string" where
  "digitsOf n = (if n < 10 then [digitChar n] else digitsOf (n div 10) @ [digitChar (n mod 10)])"

definition numberToString :: "int \<Rightarrow> string" where
  "numberToString i = (if i < 0 then CHR ''-'' # digitsOf (nat (- i)) else digitsOf (nat i))"

definition cellKey :: "int \<Rightarrow> int \<Rightarrow> cell" where
  "cellKey cx cy = numberToString cx @ '','' @ numberToString cy"

definition toCell :: "real \<Rightarrow> real \<Rightarrow> int" where
  "toCell v cs = \<lfloor>v / cs\<rfloor>"

definition dist2 :: "'a XY_scheme \<Rightarrow> 'b XY_scheme \<Rightarrow> real" where
  "dist2 a b = (let dx = px a - px b; dy = py a - py b in dx * dx + dy * dy)"

fun routeCost :: "SpawnXYZ list \<Rightarrow> real" where
  "routeCost (a # b # rest) = dist2 a b + routeCost (b # rest)"
| "routeCost _ = 0"

section \<open>SpatialGrid\<close>

definition addToCell :: "real \<Rightarrow> ('a \<Rightarrow> XY) \<Rightarrow> 'a \<Rightarrow> (cell \<times> 'a list) list \<Rightarrow> (cell \<times> 'a list) list" where
  "addToCell safeCellSize getXY item cs =
     (let xy = getXY item;
          cx = toCell (px xy) safeCellSize;
          cy = toCell (py xy) safeCellSize;
          key = cellKey cx cy
      in case map_of cs key of
           Some bucket \<Rightarrow> AList.update key (bucket @ [item]) cs
         | None \<Rightarrow> AList.update key [item] cs)"

definition buildSpatialIndex :: "'a list \<Rightarrow> real \<Rightarrow> ('a \<Rightarrow> XY) \<Rightarrow> 'a SpatialIndex" where
  "buildSpatialIndex items cs getXY =
     (let safeCellSize = max (1 / 1000000) cs
      in \<lparr>cellSize = safeCellSize,
          cells = fold (addToCell safeCellSize getXY) items []\<rparr>)"

definition spawnXY :: "SpawnXYZ \<Rightarrow> XY" where
  "spawnXY item = \<lparr>px = px item, py = py item\<rparr>"

text \<open>The three nested loops of a grid scan, innermost first.\<close>

definition withinR2 :: "real \<Rightarrow> 'a XY_scheme \<Rightarrow> SpawnXYZ \<Rightarrow> bool" where
  "withinR2 r2 center point =
     (let dxw = px point - px center; dyw = py point - py center
      in dxw * dxw + dyw * dyw \<le> r2)"

definition queryBucket :: "real \<Rightarrow> 'a XY_scheme \<Rightarrow> SpawnXYZ list \<Rightarrow> SpawnXYZ list \<Rightarrow> SpawnXYZ list" where
  "queryBucket r2 center bucket found =
     fold (\<lambda>point found. if withinR2 r2 center point then found @ [point] else found) bucket found"

definition queryRow :: "SpawnXYZ SpatialIndex \<Rightarrow> real \<Rightarrow> 'a XY_scheme \<Rightarrow> int \<Rightarrow> int \<Rightarrow> int \<Rightarrow> int
    \<Rightarrow> SpawnXYZ list \<Rightarrow> SpawnXYZ list" where
  "queryRow index r2 center cx cy rng dy found =
     fold (\<lambda>dx found.
             case map_of (cells index) (cellKey (cx + dx) (cy + dy)) of
               None \<Rightarrow> found
             | Some bucket \<Rightarrow> queryBucket r2 center bucket found)
          [- rng .. rng] found"

definition queryPointsWithin :: "SpawnXYZ SpatialIndex \<Rightarrow> 'a XY_scheme \<Rightarrow> real \<Rightarrow> SpawnXYZ list" where
  "queryPointsWithin index center radius =
     (if \<not> (radius > 0) then []
      else if length (cells index) = 0 then []
      else
        let r2 = radius * radius;
            cx = toCell (px center) (cellSize index);
            cy = toCell (py center) (cellSize index);
            rng = \<lceil>radius / cellSize index\<rceil>
        in fold (queryRow index r2 center cx cy rng) [- rng .. rng] [])"

section \<open>DensityClassifier\<close>

text \<open>The source's running \<open>count\<close> is called \<open>cnt\<close> here.\<close>

definition countBucket :: "real \<Rightarrow> SpawnXYZ \<Rightarrow> SpawnXYZ list \<Rightarrow> int \<Rightarrow> int" where
  "countBucket r2 point bucket cnt =
     fold (\<lambda>other cnt. if withinR2 r2 point other then cnt + 1 else cnt) bucket cnt"

definition countRow :: "SpawnXYZ SpatialIndex \<Rightarrow> real \<Rightarrow> SpawnXYZ \<Rightarrow> int \<Rightarrow> int \<Rightarrow> int \<Rightarrow> int
    \<Rightarrow> int \<Rightarrow> int" where
  "countRow index r2 point cx cy rng dy cnt =
     fold (\<lambda>dx cnt.
             case map_of (cells index) (cellKey (cx + dx) (cy + dy)) of
               None \<Rightarrow> cnt
             | Some bucket \<Rightarrow> countBucket r2 point bucket cnt)
          [- rng .. rng] cnt"

definition countNeighbors :: "SpawnXYZ SpatialIndex \<Rightarrow> real \<Rightarrow> int \<Rightarrow> SpawnXYZ \<Rightarrow> int" where
  "countNeighbors index r2 rng point =
     (let cx = toCell (px point) (cellSize index);
          cy = toCell (py point) (cellSize index)
      in fold (countRow index r2 point cx cy rng) [- rng .. rng] 0)"

definition computeNeighborCounts :: "SpawnXYZ list \<Rightarrow> real \<Rightarrow> (int \<rightharpoonup> int)" where
  "computeNeighborCounts points radius =
     (if length points = 0 then Map.empty
      else if \<not> (radius > 0) then fold (\<lambda>point counts. counts(pid point \<mapsto> 1)) points Map.empty
      else
        let index = buildSpatialIndex points radius spawnXY;
            r2 = radius * radius;
            rng = \<lceil>radius / cellSize index\<rceil>
        in fold (\<lambda>point counts. counts(pid point \<mapsto> countNeighbors index r2 rng point))
             points Map.empty)"

section \<open>ClusterAvoidance\<close>

definition dist2PointToSegment :: "XY \<Rightarrow> 'a XY_scheme \<Rightarrow> 'b XY_scheme \<Rightarrow> real" where
  "dist2PointToSegment p a b =
     (let abx = px b - px a;
          aby = py b - py a;
          apx = px p - px a;
          apy = py p - py a;
          abLen2 = abx * abx + aby * aby
      in if abLen2 < 1 / 1000000000000 then apx * apx + apy * apy
         else
           let t = (apx * abx + apy * aby) / abLen2;
               t = max 0 (min 1 t);
               cx = px a + t * abx;
               cy = py a + t * aby;
               dx = px p - cx;
               dy = py p - cy
           in dx * dx + dy * dy)"

text \<open>
  The scan returns \<open>false\<close> from inside its three loops at the first dense point within
  reach; \<open>list_all\<close> stops at the first failing element in the same way.
\<close>

definition segmentAvoidsDense :: "'a XY_scheme \<Rightarrow> 'b XY_scheme \<Rightarrow> SpawnXYZ SpatialIndex option \<Rightarrow> real \<Rightarrow> bool" where
  "segmentAvoidsDense a b denseIndex avoidRadius =
     (case denseIndex of
        None \<Rightarrow> True
      | Some index \<Rightarrow>
          if \<not> (avoidRadius > 0) then True
          else if length (cells index) = 0 then True
          else
            let minX = min (px a) (px b) - avoidRadius;
                maxX = max (px a) (px b) + avoidRadius;
                minY = min (py a) (py b) - avoidRadius;
                maxY = max (py a) (py b) + avoidRadius;
                minCx = toCell minX (cellSize index);
                maxCx = toCell maxX (cellSize index);
                minCy = toCell minY (cellSize index);
                maxCy = toCell maxY (cellSize index);
                r2 = avoidRadius * avoidRadius
            in list_all (\<lambda>cy.
                 list_all (\<lambda>cx.
                   case map_of (cells index) (cellKey cx cy) of
                     None \<Rightarrow> True
                   | Some bucket \<Rightarrow>
                       list_all (\<lambda>dense. \<not> (dist2PointToSegment (spawnXY dense) a b \<le> r2)) bucket)
                   [minCx .. maxCx])
                 [minCy .. maxCy])"

section \<open>RouteBuilder\<close>

record AutoRouteSettings =
  center :: XY
  maxAreaRadius :: real
  maxStepDistance :: real
  maxWaypoints :: real
  avoidDenseTravelRadius :: real

record AutoRouteStats =
  total :: nat
  inArea :: nat
  denseInArea :: nat
  safeInArea :: nat
  picked :: nat

record AutoRouteResult =
  route :: "SpawnXYZ list"
  stats :: AutoRouteStats

text \<open>
  The only way the code can raise: reading a property of \<open>undefined\<close>, which an array
  read out of range yields.
\<close>

datatype error = TypeError

text \<open>
  \<open>Array.prototype.sort\<close> with a comparator is stable; for the consistent comparators of
  this library the result is that of a stable insertion sort.
\<close>

fun insertCmp :: "('a \<Rightarrow> 'a \<Rightarrow> real) \<Rightarrow> 'a \<Rightarrow> 'a list \<Rightarrow> 'a list" where
  "insertCmp cmp v [] = [v]"
| "insertCmp cmp v (w # ws) = (if cmp v w \<le> 0 then v # w # ws else w # insertCmp cmp v ws)"

definition sortCmp :: "('a \<Rightarrow> 'a \<Rightarrow> real) \<Rightarrow> 'a list \<Rightarrow> 'a list" where
  "sortCmp cmp vs = foldr (insertCmp cmp) vs []"

text \<open>An array read: \<open>undefined\<close> (here \<open>None\<close>) outside the array.\<close>

definition jsNth :: "'a list \<Rightarrow> int \<Rightarrow> 'a option" where
  "jsNth vs i = (if 0 \<le> i \<and> i < int (length vs) then Some (vs ! nat i) else None)"

definition isFinite :: "limit \<Rightarrow> bool" where
  "isFinite l = (case l of Finite v \<Rightarrow> True | Infinity \<Rightarrow> False)"

text \<open>The values \<open>generateAutoRoute\<close> computes before it builds paths.\<close>

definition cappedWaypoints :: "real \<Rightarrow> int" where
  "cappedWaypoints mw = max 0 \<lfloor>mw\<rfloor>"

definition routeMaxWaypoints :: "AutoRouteSettings \<Rightarrow> int" where
  "routeMaxWaypoints settings =
     (let safeMax = cappedWaypoints (maxWaypoints settings) in if safeMax > 0 then safeMax else 0)"

definition maxAreaR2 :: "AutoRouteSettings \<Rightarrow> limit" where
  "maxAreaR2 settings =
     (if maxAreaRadius settings > 0 then Finite (maxAreaRadius settings * maxAreaRadius settings)
      else Infinity)"

definition inAreaPoints :: "SpawnXYZ list \<Rightarrow> AutoRouteSettings \<Rightarrow> SpawnXYZ list" where
  "inAreaPoints points settings =
     filter (\<lambda>point. le_limit (dist2 (center settings) point) (maxAreaR2 settings)) points"

definition denseInAreaPoints :: "SpawnXYZ list \<Rightarrow> int set \<Rightarrow> AutoRouteSettings \<Rightarrow> SpawnXYZ list" where
  "denseInAreaPoints points denseIds settings =
     filter (\<lambda>point. pid point \<in> denseIds) (inAreaPoints points settings)"

definition safeInAreaPoints :: "SpawnXYZ list \<Rightarrow> int set \<Rightarrow> AutoRouteSettings \<Rightarrow> SpawnXYZ list" where
  "safeInAreaPoints points denseIds settings =
     filter (\<lambda>point. \<not> pid point \<in> denseIds) (inAreaPoints points settings)"

definition travelR2 :: "AutoRouteSettings \<Rightarrow> limit" where
  "travelR2 settings =
     (if maxAreaRadius settings > 0 \<and> avoidDenseTravelRadius settings > 0
      then Finite ((maxAreaRadius settings + avoidDenseTravelRadius settings)
                   * (maxAreaRadius settings + avoidDenseTravelRadius settings))
      else Infinity)"

definition denseForTravel :: "SpawnXYZ list \<Rightarrow> int set \<Rightarrow> AutoRouteSettings \<Rightarrow> SpawnXYZ list" where
  "denseForTravel points denseIds settings =
     (if avoidDenseTravelRadius settings > 0
      then filter (\<lambda>point. pid point \<in> denseIds
                     \<and> le_limit (dist2 (center settings) point) (travelR2 settings)) points
      else [])"

definition routeDenseIndex :: "SpawnXYZ list \<Rightarrow> int set \<Rightarrow> AutoRouteSettings \<Rightarrow> SpawnXYZ SpatialIndex option" where
  "routeDenseIndex points denseIds settings =
     (if avoidDenseTravelRadius settings > 0 \<and> length (denseForTravel points denseIds settings) > 0
      then Some (buildSpatialIndex (denseForTravel points denseIds settings)
                   (avoidDenseTravelRadius settings) spawnXY)
      else None)"

text \<open>The statistics of a result whose route has \<open>n\<close> points.\<close>

definition routeStats :: "SpawnXYZ list \<Rightarrow> int set \<Rightarrow> AutoRouteSettings \<Rightarrow> nat \<Rightarrow> AutoRouteStats" where
  "routeStats points denseIds settings n =
     \<lparr>total = length points,
      inArea = length (inAreaPoints points settings),
      denseInArea = length (denseInAreaPoints points denseIds settings),
      safeInArea = length (safeInAreaPoints points denseIds settings),
      picked = n\<rparr>"

text \<open>
  What the closure \<open>buildGreedyPath\<close> captures from \<open>generateAutoRoute\<close>.
\<close>

record RouteEnv =
  envMaxWaypoints :: int
  envMaxStep :: real
  envMaxStep2 :: limit
  envAvoidRadius :: real
  envCenter :: XY
  envSafeInArea :: "SpawnXYZ list"
  envSafeIndex :: "SpawnXYZ SpatialIndex option"
  envDenseIndex :: "SpawnXYZ SpatialIndex option"
  envStepNeighborCounts :: "int \<rightharpoonup> int"

definition routeEnv :: "SpawnXYZ list \<Rightarrow> int set \<Rightarrow> AutoRouteSettings \<Rightarrow> RouteEnv" where
  "routeEnv points denseIds settings =
     (let maxStep = maxStepDistance settings;
          safe = safeInAreaPoints points denseIds settings
      in \<lparr>envMaxWaypoints = routeMaxWaypoints settings,
          envMaxStep = maxStep,
          envMaxStep2 = (if maxStep > 0 then Finite (maxStep * maxStep) else Infinity),
          envAvoidRadius = avoidDenseTravelRadius settings,
          envCenter = center settings,
          envSafeInArea = safe,
          envSafeIndex = (if maxStep > 0 then Some (buildSpatialIndex safe maxStep spawnXY) else None),
          envDenseIndex = routeDenseIndex points denseIds settings,
          envStepNeighborCounts = (if maxStep > 0 then computeNeighborCounts safe maxStep else Map.empty)\<rparr>)"

definition closestToCenter :: "XY \<Rightarrow> SpawnXYZ list \<Rightarrow> SpawnXYZ option" where
  "closestToCenter c safe =
     fst (fold (\<lambda>point (best, bestD2).
                  let d2 = dist2 c point
                  in if lt_limit d2 bestD2 then (Some point, Finite d2) else (best, bestD2))
            safe (None, Infinity))"

record Scored =
  scPoint :: SpawnXYZ
  scLocal :: int
  scCenterD2 :: real

definition localOf :: "(int \<rightharpoonup> int) \<Rightarrow> SpawnXYZ \<Rightarrow> int" where
  "localOf stepNeighborCounts point =
     (case stepNeighborCounts (pid point) of None \<Rightarrow> 1 | Some c \<Rightarrow> c) - 1"

definition cmpStarts :: "Scored \<Rightarrow> Scored \<Rightarrow> real" where
  "cmpStarts a b =
     (if scLocal a \<noteq> scLocal b then real_of_int (scLocal b - scLocal a)
      else if scCenterD2 a \<noteq> scCenterD2 b then scCenterD2 a - scCenterD2 b
      else real_of_int (pid (scPoint a) - pid (scPoint b)))"

definition scoredStarts :: "RouteEnv \<Rightarrow> Scored list" where
  "scoredStarts env =
     sortCmp cmpStarts
       (map (\<lambda>point. \<lparr>scPoint = point,
                       scLocal = localOf (envStepNeighborCounts env) point,
                       scCenterD2 = dist2 (envCenter env) point\<rparr>)
            (envSafeInArea env))"

definition pushStart :: "Scored list \<Rightarrow> nat \<Rightarrow> error + SpawnXYZ list \<Rightarrow> error + SpawnXYZ list" where
  "pushStart scored index acc =
     (case acc of
        Inl e \<Rightarrow> Inl e
      | Inr startCandidates \<Rightarrow>
          (case jsNth scored (int index) of
             None \<Rightarrow> Inl TypeError
           | Some s \<Rightarrow> Inr (startCandidates @ [scPoint s])))"

definition startCandidates :: "RouteEnv \<Rightarrow> error + SpawnXYZ list" where
  "startCandidates env =
     (let scored = scoredStarts env;
          maxStartCandidates = min 12 (length scored)
      in case fold (pushStart scored) [0 ..< maxStartCandidates] (Inr []) of
           Inl e \<Rightarrow> Inl e
         | Inr cands \<Rightarrow>
             (case closestToCenter (envCenter env) (envSafeInArea env) of
                None \<Rightarrow> Inr cands
              | Some closest \<Rightarrow>
                  if \<not> list_ex (\<lambda>point. pid point = pid closest) cands
                  then Inr (cands @ [closest]) else Inr cands))"

text \<open>The state of the search for the best next point inside one step of the walk.\<close>

record Best =
  best :: "SpawnXYZ option"
  bestDegree :: int
  bestLocal :: int
  bestStepD2 :: limit
  bestCenterD2 :: limit

definition forwardDegree :: "RouteEnv \<Rightarrow> int set \<Rightarrow> SpawnXYZ \<Rightarrow> int" where
  "forwardDegree env visited candidate =
     (case envSafeIndex env of
        Some safeIndex \<Rightarrow>
          if envMaxStep env > 0 \<and> isFinite (envMaxStep2 env)
          then fold (\<lambda>neighbor degree.
                       if pid neighbor = pid candidate then degree
                       else if pid neighbor \<in> visited then degree
                       else degree + 1)
                 (queryPointsWithin safeIndex candidate (envMaxStep env)) 0
          else int (length (envSafeInArea env)) - int (card visited)
      | None \<Rightarrow> int (length (envSafeInArea env)) - int (card visited))"

definition considerCandidate :: "RouteEnv \<Rightarrow> SpawnXYZ \<Rightarrow> int set \<Rightarrow> SpawnXYZ \<Rightarrow> Best \<Rightarrow> Best" where
  "considerCandidate env current visited candidate st =
     (if pid candidate = pid current then st
      else if pid candidate \<in> visited then st
      else
        let stepD2 = dist2 current candidate
        in if gt_limit stepD2 (envMaxStep2 env) then st
           else if \<not> segmentAvoidsDense current candidate (envDenseIndex env) (envAvoidRadius env) then st
           else
             let degree = forwardDegree env visited candidate;
                 local = localOf (envStepNeighborCounts env) candidate;
                 centerD2 = dist2 (envCenter env) candidate
             in if degree > bestDegree st
                then \<lparr>best = Some candidate, bestDegree = degree, bestLocal = local,
                      bestStepD2 = Finite stepD2, bestCenterD2 = Finite centerD2\<rparr>
                else if degree < bestDegree st then st
                else if local > bestLocal st
                then st\<lparr>best := Some candidate, bestLocal := local,
                        bestStepD2 := Finite stepD2, bestCenterD2 := Finite centerD2\<rparr>
                else if local < bestLocal st then st
                else if lt_limit stepD2 (bestStepD2 st)
                then st\<lparr>best := Some candidate, bestStepD2 := Finite stepD2,
                        bestCenterD2 := Finite centerD2\<rparr>
                else if gt_limit stepD2 (bestStepD2 st) then st
                else if lt_limit centerD2 (bestCenterD2 st)
                then st\<lparr>best := Some candidate, bestCenterD2 := Finite centerD2\<rparr>
                else st)"

definition stepCandidates :: "RouteEnv \<Rightarrow> SpawnXYZ \<Rightarrow> SpawnXYZ list" where
  "stepCandidates env current =
     (case envSafeIndex env of
        Some safeIndex \<Rightarrow>
          if envMaxStep env > 0 \<and> isFinite (envMaxStep2 env)
          then queryPointsWithin safeIndex current (envMaxStep env)
          else envSafeInArea env
      | None \<Rightarrow> envSafeInArea env)"

definition pickBest :: "RouteEnv \<Rightarrow> SpawnXYZ \<Rightarrow> int set \<Rightarrow> SpawnXYZ option" where
  "pickBest env current visited =
     best (fold (considerCandidate env current visited) (stepCandidates env current)
             \<lparr>best = None, bestDegree = - 1, bestLocal = - 1,
              bestStepD2 = Infinity, bestCenterD2 = Infinity\<rparr>)"

text \<open>
  The \<open>while\<close> loop of \<open>buildGreedyPath\<close>, on the route so far and the set of visited ids.
  The route is never empty when the loop runs; were it empty, \<open>current\<close> would be
  \<open>undefined\<close> and reading its fields would raise.
\<close>

function greedyLoop :: "RouteEnv \<Rightarrow> SpawnXYZ list \<Rightarrow> int set \<Rightarrow> error + SpawnXYZ list" where
  "greedyLoop env rt visited =
     (if int (length rt) < envMaxWaypoints env then
        (if rt = [] then Inl TypeError
         else
           (case pickBest env (last rt) visited of
              None \<Rightarrow> Inr rt
            | Some b \<Rightarrow> greedyLoop env (rt @ [b]) (insert (pid b) visited)))
      else Inr rt)"
  by pat_completeness auto
termination
  by (relation "measure (\<lambda>(env, rt, visited). nat (envMaxWaypoints env - int (length rt)))") auto

definition buildGreedyPath :: "RouteEnv \<Rightarrow> SpawnXYZ option \<Rightarrow> error + SpawnXYZ list" where
  "buildGreedyPath env start =
     (case start of
        None \<Rightarrow> Inl TypeError
      | Some s \<Rightarrow> greedyLoop env [s] {pid s})"

definition tryStart :: "RouteEnv \<Rightarrow> SpawnXYZ \<Rightarrow> error + (SpawnXYZ list \<times> real) \<Rightarrow> error + (SpawnXYZ list \<times> real)" where
  "tryStart env start acc =
     (case acc of
        Inl e \<Rightarrow> Inl e
      | Inr (bestRoute, bestCost) \<Rightarrow>
          (case buildGreedyPath env (Some start) of
             Inl e \<Rightarrow> Inl e
           | Inr rt \<Rightarrow>
               if length rt > length bestRoute then Inr (rt, routeCost rt)
               else if length rt = length bestRoute then
                 (let cost = routeCost rt
                  in if cost < bestCost then Inr (rt, cost) else Inr (bestRoute, bestCost))
               else Inr (bestRoute, bestCost)))"

definition generateAutoRoute :: "SpawnXYZ list \<Rightarrow> int set \<Rightarrow> AutoRouteSettings \<Rightarrow> error + AutoRouteResult" where
  "generateAutoRoute points denseIds settings =
     (let env = routeEnv points denseIds settings
      in if envMaxWaypoints env = 0 \<or> length (envSafeInArea env) = 0
         then Inr \<lparr>route = [], stats = routeStats points denseIds settings 0\<rparr>
         else
           (case startCandidates env of
              Inl e \<Rightarrow> Inl e
            | Inr cands \<Rightarrow>
                (case buildGreedyPath env
                        (case jsNth cands 0 of Some s \<Rightarrow> Some s | None \<Rightarrow> jsNth (envSafeInArea env) 0) of
                   Inl e \<Rightarrow> Inl e
                 | Inr first \<Rightarrow>
                     (case fold (tryStart env) (drop 1 cands) (Inr (first, routeCost first)) of
                        Inl e \<Rightarrow> Inl e
                      | Inr (bestRoute, bestCost) \<Rightarrow>
                          Inr \<lparr>route = bestRoute,
                               stats = routeStats points denseIds settings (length bestRoute)\<rparr>))))"

section \<open>ParameterTuner\<close>

text \<open>
  The fields \<open>maxAreaRadius\<close>, \<open>maxStepDistance\<close> and \<open>avoidDenseTravelRadius\<close> of the
  tuned parameters carry the prefix \<open>tuned\<close>, the settings having fields of the same names.
\<close>

record TunedAutoRouteParams =
  clusterRadius :: real
  tunedMaxAreaRadius :: real
  tunedMaxStepDistance :: real
  tunedAvoidDenseTravelRadius :: real
  dirtySupportRadius :: real

text \<open>
  \<open>uniqueSorted\<close>: every real is finite, so \<open>Number.isFinite\<close> holds throughout; the
  comparator \<open>a - b\<close> sorts ascending. \<open>last\<close> starts as \<open>-Infinity\<close> and is read only
  once \<open>result\<close> is non-empty, when it is the last element pushed.
\<close>

definition uniqueSorted :: "real list \<Rightarrow> real list" where
  "uniqueSorted vals =
     (let cleaned = sortCmp (\<lambda>a b. a - b) (filter (\<lambda>v. v > 0) vals)
      in fst (fold (\<lambda>v (result, lst).
                      if length result = 0 \<or> (case lst of None \<Rightarrow> True | Some l \<Rightarrow> \<bar>v - l\<bar> > 1 / 1000000000)
                      then (result @ [v], Some v) else (result, lst))
                cleaned ([], None)))"

text \<open>
  \<open>estimateBaseSpacing\<close>: the four bounds start at \<open>\<plusminus>Infinity\<close> (\<open>None\<close> below) and the
  first point sets all four. On an empty list the source computes with the infinities and
  returns \<open>Infinity\<close>.
\<close>

definition boundsStep :: "SpawnXYZ \<Rightarrow> (real \<times> real \<times> real \<times> real) option \<Rightarrow> (real \<times> real \<times> real \<times> real) option" where
  "boundsStep point st =
     (case st of
        None \<Rightarrow> Some (px point, px point, py point, py point)
      | Some (minX, maxX, minY, maxY) \<Rightarrow>
          Some (if px point < minX then px point else minX,
                if px point > maxX then px point else maxX,
                if py point < minY then py point else minY,
                if py point > maxY then py point else maxY))"

definition estimateBaseSpacing :: "SpawnXYZ list \<Rightarrow> limit" where
  "estimateBaseSpacing points =
     (case fold boundsStep points None of
        None \<Rightarrow> Infinity
      | Some (minX, maxX, minY, maxY) \<Rightarrow>
          let width = maxX - minX;
              height = maxY - minY;
              area = width * height
          in if area > 0 then Finite (sqrt (area / max 1 (real (length points))))
             else
               let extent = max \<bar>width\<bar> \<bar>height\<bar>
               in if extent > 0 then Finite (extent / sqrt (max 1 (real (length points))))
                  else Finite 0)"

record BestTuned =
  params :: TunedAutoRouteParams
  len :: nat
  cost :: real

definition denseIdsOf :: "(int \<rightharpoonup> int) \<Rightarrow> SpawnXYZ list \<Rightarrow> int set" where
  "denseIdsOf counts points =
     fold (\<lambda>point ids.
             let c = (case counts (pid point) of None \<Rightarrow> 1 | Some c \<Rightarrow> c)
             in if c \<ge> 3 then insert (pid point) ids else ids)
          points {}"

definition dirtyIdsOf :: "(int \<rightharpoonup> int) \<Rightarrow> SpawnXYZ list \<Rightarrow> int set" where
  "dirtyIdsOf counts points =
     fold (\<lambda>point ids.
             let c = (case counts (pid point) of None \<Rightarrow> 1 | Some c \<Rightarrow> c)
             in if c < 3 then insert (pid point) ids else ids)
          points {}"

definition tuneStep :: "SpawnXYZ list \<Rightarrow> int set \<Rightarrow> XY \<Rightarrow> int \<Rightarrow> real \<Rightarrow> real \<Rightarrow> real \<Rightarrow> real
    \<Rightarrow> error + BestTuned option \<Rightarrow> error + BestTuned option" where
  "tuneStep basePoints denseIds c capped dirtyR cr areaBase maxStep acc =
     (case acc of
        Inl e \<Rightarrow> Inl e
      | Inr bst \<Rightarrow>
          let maxAreaR = areaBase + maxStep * 0.35;
              avoidR = max (cr * 1.15) (maxStep * 0.25)
          in case generateAutoRoute basePoints denseIds
                    \<lparr>center = c, maxAreaRadius = maxAreaR, maxStepDistance = maxStep,
                     maxWaypoints = real_of_int capped, avoidDenseTravelRadius = avoidR\<rparr> of
               Inl e \<Rightarrow> Inl e
             | Inr result \<Rightarrow>
                 let n = length (route result);
                     k = routeCost (route result);
                     new = \<lparr>params = \<lparr>clusterRadius = cr, tunedMaxAreaRadius = maxAreaR,
                                      tunedMaxStepDistance = maxStep,
                                      tunedAvoidDenseTravelRadius = avoidR,
                                      dirtySupportRadius = dirtyR\<rparr>,
                            len = n, cost = k\<rparr>
                 in case bst of
                      None \<Rightarrow> Inr (Some new)
                    | Some b \<Rightarrow>
                        if n > len b then Inr (Some new)
                        else if n < len b then Inr (Some b)
                        else if maxStep < tunedMaxStepDistance (params b) then Inr (Some new)
                        else if maxStep > tunedMaxStepDistance (params b) then Inr (Some b)
                        else if k < cost b then Inr (Some new)
                        else Inr (Some b))"

definition tuneCluster :: "SpawnXYZ list \<Rightarrow> XY \<Rightarrow> int \<Rightarrow> real \<Rightarrow> real \<Rightarrow> real
    \<Rightarrow> error + BestTuned option \<Rightarrow> error + BestTuned option" where
  "tuneCluster basePoints c capped baseSpacing dirtyR cr acc =
     (let counts = computeNeighborCounts basePoints cr;
          denseIds = denseIdsOf counts basePoints;
          safePoints = filter (\<lambda>point. \<not> pid point \<in> denseIds) basePoints
      in if length safePoints = 0 then acc
         else
           let safeDistances = sortCmp (\<lambda>a b. a - b) (map (\<lambda>point. sqrt (dist2 c point)) safePoints);
               targetSafe = min (int (length safeDistances)) (max (capped * 6) (min 400 (capped * 12)));
               areaBase = (case jsNth safeDistances (targetSafe - 1) of
                             Some v \<Rightarrow> v
                           | None \<Rightarrow>
                               (case jsNth safeDistances (int (length safeDistances) - 1) of
                                  Some v \<Rightarrow> v
                                | None \<Rightarrow> 0));
               steps = filter (\<lambda>v. v > cr * 1.05)
                         (uniqueSorted
                            [baseSpacing * 0.8, baseSpacing * 1.0, baseSpacing * 1.3,
                             baseSpacing * 1.7, baseSpacing * 2.2, baseSpacing * 3.0,
                             cr * 1.3, cr * 1.8, cr * 2.4, cr * 3.2])
           in fold (tuneStep basePoints denseIds c capped dirtyR cr areaBase) steps acc)"

definition tuneAutoRouteParams :: "SpawnXYZ list \<Rightarrow> XY \<Rightarrow> real \<Rightarrow> error + TunedAutoRouteParams option" where
  "tuneAutoRouteParams points c mw =
     (let capped = cappedWaypoints mw
      in if capped = 0 then Inr None
         else if length points = 0 then Inr None
         else
           let localCount = min (int (length points)) (max 2000 (min 5000 (capped * 200)));
               byDistance =
                 map fst
                   (take (nat localCount)
                      (sortCmp (\<lambda>a b. snd a - snd b) (map (\<lambda>point. (point, dist2 c point)) points)));
               baseSpacingRaw = estimateBaseSpacing byDistance;
               baseSpacing = (case baseSpacingRaw of
                                Finite v \<Rightarrow> if v > 0 then v else 200
                              | Infinity \<Rightarrow> 200);
               dirtyR = baseSpacing * 6;
               dirtyCounts = computeNeighborCounts points dirtyR;
               dirtyIds = dirtyIdsOf dirtyCounts points;
               cleanedPoints = filter (\<lambda>point. \<not> pid point \<in> dirtyIds) points;
               basePoints =
                 (if int (length cleanedPoints) \<ge> min (int (length points)) (max 100 (capped * 5))
                  then cleanedPoints else points);
               clusterCandidates =
                 uniqueSorted
                   [baseSpacing * 0.25, baseSpacing * 0.35, baseSpacing * 0.5, baseSpacing * 0.7,
                    baseSpacing * 1.0, baseSpacing * 1.4, baseSpacing * 2.0]
           in case fold (tuneCluster basePoints c capped baseSpacing dirtyR) clusterCandidates (Inr None) of
                Inl e \<Rightarrow> Inl e
              | Inr None \<Rightarrow> Inr None
              | Inr (Some b) \<Rightarrow> Inr (Some (params b)))"

section \<open>Auxiliary notions for the proofs\<close>

text \<open>
  The bucket a key has in the index (a missing key is skipped by every loop, like an empty
  bucket), the cell an item is filed under, and the cells a scan of \<open>rng\<close> rings around
  \<open>(cx, cy)\<close> visits, in the order of the two loops (\<open>dy\<close> outside, \<open>dx\<close> inside).
\<close>

definition bucketAt :: "'a SpatialIndex \<Rightarrow> cell \<Rightarrow> 'a list" where
  "bucketAt index key = (case map_of (cells index) key of None \<Rightarrow> [] | Some bucket \<Rightarrow> bucket)"

definition cellOf :: "real \<Rightarrow> ('a \<Rightarrow> XY) \<Rightarrow> 'a \<Rightarrow> cell" where
  "cellOf s getXY item = cellKey (toCell (px (getXY item)) s) (toCell (py (getXY item)) s)"

definition window :: "int \<Rightarrow> int \<Rightarrow> int \<Rightarrow> cell list" where
  "window cx cy rng = concat (map (\<lambda>dy. map (\<lambda>dx. cellKey (cx + dx) (cy + dy)) [- rng .. rng]) [- rng .. rng])"




text \<open>The scenario of the specification: four points, three of them within the area.\<close>

definition scenarioPoints :: "SpawnXYZ list" where
  "scenarioPoints =
     [\<lparr>px = 0, py = 0, pid = 1, pz = 0\<rparr>,
      \<lparr>px = 10, py = 0, pid = 2, pz = 0\<rparr>,
      \<lparr>px = 20, py = 0, pid = 3, pz = 0\<rparr>,
      \<lparr>px = 100, py = 100, pid = 4, pz = 0\<rparr>]"

definition scenarioSettings :: AutoRouteSettings where
  "scenarioSettings =
     \<lparr>center = \<lparr>px = 0, py = 0\<rparr>, maxAreaRadius = 50, maxStepDistance = 15,
      maxWaypoints = 10, avoidDenseTravelRadius = 0\<rparr>"

text \<open>
  The scenario with any ids and heights: a spawn by its coordinates, id and height, and the
  environment \<open>generateAutoRoute\<close> builds for the four points.
\<close>

definition spawnAt :: "real \<Rightarrow> real \<Rightarrow> int \<Rightarrow> real \<Rightarrow> SpawnXYZ" where
  "spawnAt u v i z = \<lparr>px = u, py = v, pid = i, pz = z\<rparr>"

definition scenarioEnv :: "int \<Rightarrow> int \<Rightarrow> int \<Rightarrow> int \<Rightarrow> real \<Rightarrow> real \<Rightarrow> real \<Rightarrow> real \<Rightarrow> RouteEnv" where
  "scenarioEnv i1 i2 i3 i4 z1 z2 z3 z4 =
     routeEnv [spawnAt 0 0 i1 z1, spawnAt 10 0 i2 z2, spawnAt 20 0 i3 z3, spawnAt 100 100 i4 z4] {} scenarioSettings"

section \<open>The library in double arithmetic\<close>

text \<open>
  The definitions above compute in exact reals and integers. The library computes in IEEE 754
  doubles, and some of its loops count in doubles. The definitions of this part follow the
  source again, in the arithmetic of JavaScript numbers; their names end in \<open>_d\<close>.

  A \<open>number\<close> is a finite double, given by its value, or one of \<open>Infinity\<close>, \<open>-Infinity\<close>
  and \<open>NaN\<close>. The sign of a zero is not kept: the functions modelled here never divide by
  a zero (each divisor is at least \<open>1e-6\<close> or \<open>1e-12\<close>, or is infinite or \<open>NaN\<close>), and no
  other operation they use tells \<open>-0\<close> from \<open>+0\<close>; a division by zero is modelled as a
  division by \<open>+0\<close>.
\<close>

datatype number = Fin real | PInf | NInf | NaN

text \<open>
  Rounding to the nearest double, ties to the even significand: a real \<open>v\<close> with
  \<open>2\<^sup>k \<le> |v| < 2\<^sup>k\<^sup>+\<^sup>1\<close> is rounded to a multiple of \<open>2\<^sup>k\<^sup>-\<^sup>5\<^sup>2\<close>, and to a multiple of \<open>2\<^sup>-\<^sup>1\<^sup>0\<^sup>7\<^sup>4\<close> in the
  subnormal range; a result beyond the largest double \<open>(2\<^sup>5\<^sup>3 - 1) \<times> 2\<^sup>9\<^sup>7\<^sup>1\<close> is an infinity.
\<close>

definition maxDouble :: real where
  "maxDouble = (2 ^ 53 - 1) * 2 ^ 971"

definition roundHalfEven :: "real \<Rightarrow> int" where
  "roundHalfEven y =
     (let f = \<lfloor>y\<rfloor>; d = y - of_int f
      in if d < 1 / 2 then f else if 1 / 2 < d then f + 1 else if even f then f else f + 1)"

definition ulpExp :: "real \<Rightarrow> int" where
  "ulpExp v = max (- 1074) (\<lfloor>log 2 \<bar>v\<bar>\<rfloor> - 52)"

definition rnd :: "real \<Rightarrow> number" where
  "rnd v =
     (if v = 0 then Fin 0
      else
        let u = 2 powi ulpExp v;
            y = of_int (roundHalfEven (v / u)) * u
        in if maxDouble < y then PInf else if y < - maxDouble then NInf else Fin y)"

text \<open>The operators \<open>-x\<close>, \<open>+\<close>, \<open>-\<close>, \<open>*\<close>, \<open>/\<close> on numbers.\<close>

fun fneg :: "number \<Rightarrow> number" where
  "fneg (Fin a) = Fin (- a)"
| "fneg PInf = NInf"
| "fneg NInf = PInf"
| "fneg NaN = NaN"

fun fadd :: "number \<Rightarrow> number \<Rightarrow> number" where
  "fadd (Fin a) (Fin b) = rnd (a + b)"
| "fadd NaN b = NaN"
| "fadd a NaN = NaN"
| "fadd PInf NInf = NaN"
| "fadd NInf PInf = NaN"
| "fadd PInf b = PInf"
| "fadd a PInf = PInf"
| "fadd NInf b = NInf"
| "fadd a NInf = NInf"

definition fsub :: "number \<Rightarrow> number \<Rightarrow> number" where
  "fsub a b = fadd a (fneg b)"

text \<open>The infinity with the sign of \<open>s\<close>; \<open>NaN\<close> for \<open>s = 0\<close>.\<close>

definition infOf :: "real \<Rightarrow> number" where
  "infOf s = (if 0 < s then PInf else if s < 0 then NInf else NaN)"

fun fmul :: "number \<Rightarrow> number \<Rightarrow> number" where
  "fmul (Fin a) (Fin b) = rnd (a * b)"
| "fmul NaN b = NaN"
| "fmul a NaN = NaN"
| "fmul (Fin a) PInf = infOf a"
| "fmul (Fin a) NInf = infOf (- a)"
| "fmul PInf (Fin b) = infOf b"
| "fmul NInf (Fin b) = infOf (- b)"
| "fmul PInf PInf = PInf"
| "fmul NInf NInf = PInf"
| "fmul PInf NInf = NInf"
| "fmul NInf PInf = NInf"

fun fdiv :: "number \<Rightarrow> number \<Rightarrow> number" where
  "fdiv (Fin a) (Fin b) = (if b = 0 then infOf a else rnd (a / b))"
| "fdiv NaN b = NaN"
| "fdiv a NaN = NaN"
| "fdiv (Fin a) PInf = Fin 0"
| "fdiv (Fin a) NInf = Fin 0"
| "fdiv PInf (Fin b) = (if 0 \<le> b then PInf else NInf)"
| "fdiv NInf (Fin b) = (if 0 \<le> b then NInf else PInf)"
| "fdiv PInf b = NaN"
| "fdiv NInf b = NaN"

text \<open>
  The comparisons \<open><\<close>, \<open>===\<close> and \<open><=\<close>: each is false when an operand is \<open>NaN\<close>. The
  source's \<open>a > b\<close> is \<open>flt b a\<close>, its \<open>a !== b\<close> is \<open>\<not> feq a b\<close>. The equality of HOL on
  \<open>number\<close> is the \<open>SameValueZero\<close> of \<open>Set\<close> and \<open>Map\<close>, under which \<open>NaN\<close> equals itself.
\<close>

fun flt :: "number \<Rightarrow> number \<Rightarrow> bool" where
  "flt (Fin a) (Fin b) = (a < b)"
| "flt NaN b = False"
| "flt a NaN = False"
| "flt PInf b = False"
| "flt a NInf = False"
| "flt NInf b = True"
| "flt a PInf = True"

definition feq :: "number \<Rightarrow> number \<Rightarrow> bool" where
  "feq a b \<longleftrightarrow> a \<noteq> NaN \<and> a = b"

definition fle :: "number \<Rightarrow> number \<Rightarrow> bool" where
  "fle a b \<longleftrightarrow> flt a b \<or> feq a b"

text \<open>\<open>Math.floor\<close>, \<open>Math.ceil\<close>, \<open>Math.max\<close>, \<open>Math.min\<close>, \<open>Number.isFinite\<close>.\<close>

fun ffloor :: "number \<Rightarrow> number" where
  "ffloor (Fin a) = Fin (of_int \<lfloor>a\<rfloor>)"
| "ffloor a = a"

fun fceil :: "number \<Rightarrow> number" where
  "fceil (Fin a) = Fin (of_int \<lceil>a\<rceil>)"
| "fceil a = a"

definition fmax :: "number \<Rightarrow> number \<Rightarrow> number" where
  "fmax a b = (if a = NaN \<or> b = NaN then NaN else if flt a b then b else a)"

definition fmin :: "number \<Rightarrow> number \<Rightarrow> number" where
  "fmin a b = (if a = NaN \<or> b = NaN then NaN else if flt b a then b else a)"

fun isFinite_d :: "number \<Rightarrow> bool" where
  "isFinite_d (Fin a) = True"
| "isFinite_d a = False"

text \<open>The length of an array or the size of a set, as a number; and the two decimal
  literals of the source, each the double nearest to it.\<close>

definition ofNat :: "nat \<Rightarrow> number" where
  "ofNat n = Fin (real n)"

definition num_1e_6 :: number where
  "num_1e_6 = rnd (1 / 10 ^ 6)"

definition num_1e_12 :: number where
  "num_1e_12 = rnd (1 / 10 ^ 12)"

text \<open>
  A \<open>for\<close> loop that counts in doubles, \<open>for (let i = lo; i <= hi; i += 1)\<close>. The counter may
  stop growing (\<open>i + 1\<close> rounds to \<open>i\<close> from \<open>2\<^sup>5\<^sup>3\<close> on, and \<open>-Infinity + 1\<close> is \<open>-Infinity\<close>);
  the loop then never ends, which is the value \<open>None\<close>. \<open>forUp\<close> threads a state through
  the iterations; \<open>forUpAll\<close> is a scan that returns \<open>false\<close> from inside the loop at the
  first iteration that says so. \<open>foldOpt\<close> is a \<open>for ... of\<close> loop over an array whose body
  may itself not return.
\<close>

partial_function (option) forUp :: "number \<Rightarrow> number \<Rightarrow> (number \<Rightarrow> 's \<Rightarrow> 's option) \<Rightarrow> 's \<Rightarrow> 's option" where
  "forUp i hi body s =
     (if fle i hi
      then (case body i s of None \<Rightarrow> None | Some s' \<Rightarrow> forUp (fadd i (Fin 1)) hi body s')
      else Some s)"

partial_function (option) forUpAll :: "number \<Rightarrow> number \<Rightarrow> (number \<Rightarrow> bool option) \<Rightarrow> bool option" where
  "forUpAll i hi body =
     (if fle i hi
      then (case body i of
              None \<Rightarrow> None
            | Some ok \<Rightarrow> if ok then forUpAll (fadd i (Fin 1)) hi body else Some False)
      else Some True)"

fun foldOpt :: "('a \<Rightarrow> 's \<Rightarrow> 's option) \<Rightarrow> 'a list \<Rightarrow> 's \<Rightarrow> 's option" where
  "foldOpt f [] s = Some s"
| "foldOpt f (v # vs) s = (case f v s of None \<Rightarrow> None | Some s' \<Rightarrow> foldOpt f vs s')"

subsection \<open>Points, the grid and its scans\<close>

text \<open>
  The key of a cell is the string \<open>`${cx},${cy}`\<close>. The rendering of a number determines the
  number (it reads back as the same double; \<open>NaN\<close>, \<open>Infinity\<close> and \<open>-Infinity\<close> have names of
  their own; both zeros are \<open>0\<close>) and contains no comma, so two keys are the same string
  exactly when they render the same pair of numbers: a key is modelled by that pair.
\<close>

record XY_d =
  x_d :: number
  y_d :: number

record SpawnXYZ_d = XY_d +
  id_d :: number
  z_d :: number

type_synonym cell_d = "number \<times> number"

record 'a SpatialIndex_d =
  cellSize_d :: number
  cells_d :: "(cell_d \<times> 'a list) list"

definition cellKey_d :: "number \<Rightarrow> number \<Rightarrow> cell_d" where
  "cellKey_d cx cy = (cx, cy)"

definition toCell_d :: "number \<Rightarrow> number \<Rightarrow> number" where
  "toCell_d v cs = ffloor (fdiv v cs)"

definition dist2_d :: "'a XY_d_scheme \<Rightarrow> 'b XY_d_scheme \<Rightarrow> number" where
  "dist2_d a b =
     (let dx = fsub (x_d a) (x_d b); dy = fsub (y_d a) (y_d b)
      in fadd (fmul dx dx) (fmul dy dy))"

fun routeCostFrom :: "number \<Rightarrow> SpawnXYZ_d list \<Rightarrow> number" where
  "routeCostFrom c (a # b # rest) = routeCostFrom (fadd c (dist2_d a b)) (b # rest)"
| "routeCostFrom c rest = c"

definition routeCost_d :: "SpawnXYZ_d list \<Rightarrow> number" where
  "routeCost_d rt = routeCostFrom (Fin 0) rt"

definition addToCell_d :: "number \<Rightarrow> ('a \<Rightarrow> XY_d) \<Rightarrow> 'a \<Rightarrow> (cell_d \<times> 'a list) list \<Rightarrow> (cell_d \<times> 'a list) list" where
  "addToCell_d safeCellSize getXY item cs =
     (let xy = getXY item;
          cx = toCell_d (x_d xy) safeCellSize;
          cy = toCell_d (y_d xy) safeCellSize;
          key = cellKey_d cx cy
      in case map_of cs key of
           Some bucket \<Rightarrow> AList.update key (bucket @ [item]) cs
         | None \<Rightarrow> AList.update key [item] cs)"

definition buildSpatialIndex_d :: "'a list \<Rightarrow> number \<Rightarrow> ('a \<Rightarrow> XY_d) \<Rightarrow> 'a SpatialIndex_d" where
  "buildSpatialIndex_d items cs getXY =
     (let safeCellSize = fmax num_1e_6 cs
      in \<lparr>cellSize_d = safeCellSize,
          cells_d = fold (addToCell_d safeCellSize getXY) items []\<rparr>)"

definition spawnXY_d :: "SpawnXYZ_d \<Rightarrow> XY_d" where
  "spawnXY_d item = \<lparr>x_d = x_d item, y_d = y_d item\<rparr>"

definition withinR2_d :: "number \<Rightarrow> 'a XY_d_scheme \<Rightarrow> SpawnXYZ_d \<Rightarrow> bool" where
  "withinR2_d r2 ctr point =
     (let dxw = fsub (x_d point) (x_d ctr); dyw = fsub (y_d point) (y_d ctr)
      in fle (fadd (fmul dxw dxw) (fmul dyw dyw)) r2)"

definition queryBucket_d :: "number \<Rightarrow> 'a XY_d_scheme \<Rightarrow> SpawnXYZ_d list \<Rightarrow> SpawnXYZ_d list \<Rightarrow> SpawnXYZ_d list" where
  "queryBucket_d r2 ctr bucket found =
     fold (\<lambda>point found. if withinR2_d r2 ctr point then found @ [point] else found) bucket found"

definition queryPointsWithin_d :: "SpawnXYZ_d SpatialIndex_d \<Rightarrow> 'a XY_d_scheme \<Rightarrow> number \<Rightarrow> SpawnXYZ_d list option" where
  "queryPointsWithin_d index ctr radius =
     (if \<not> flt (Fin 0) radius then Some []
      else if length (cells_d index) = 0 then Some []
      else
        let r2 = fmul radius radius;
            cx = toCell_d (x_d ctr) (cellSize_d index);
            cy = toCell_d (y_d ctr) (cellSize_d index);
            rng = fceil (fdiv radius (cellSize_d index))
        in forUp (fneg rng) rng
             (\<lambda>dy. forUp (fneg rng) rng
                (\<lambda>dx found.
                   Some (case map_of (cells_d index) (cellKey_d (fadd cx dx) (fadd cy dy)) of
                           None \<Rightarrow> found
                         | Some bucket \<Rightarrow> queryBucket_d r2 ctr bucket found)))
             [])"

definition countBucket_d :: "number \<Rightarrow> SpawnXYZ_d \<Rightarrow> SpawnXYZ_d list \<Rightarrow> number \<Rightarrow> number" where
  "countBucket_d r2 point bucket cnt =
     fold (\<lambda>other cnt. if withinR2_d r2 point other then fadd cnt (Fin 1) else cnt) bucket cnt"

definition countNeighbors_d :: "SpawnXYZ_d SpatialIndex_d \<Rightarrow> number \<Rightarrow> number \<Rightarrow> SpawnXYZ_d \<Rightarrow> number option" where
  "countNeighbors_d index r2 rng point =
     (let cx = toCell_d (x_d point) (cellSize_d index);
          cy = toCell_d (y_d point) (cellSize_d index)
      in forUp (fneg rng) rng
           (\<lambda>dy. forUp (fneg rng) rng
              (\<lambda>dx cnt.
                 Some (case map_of (cells_d index) (cellKey_d (fadd cx dx) (fadd cy dy)) of
                         None \<Rightarrow> cnt
                       | Some bucket \<Rightarrow> countBucket_d r2 point bucket cnt)))
           (Fin 0))"

definition computeNeighborCounts_d :: "SpawnXYZ_d list \<Rightarrow> number \<Rightarrow> (number \<rightharpoonup> number) option" where
  "computeNeighborCounts_d points radius =
     (if length points = 0 then Some Map.empty
      else if \<not> flt (Fin 0) radius
      then Some (fold (\<lambda>point counts. counts(id_d point \<mapsto> Fin 1)) points Map.empty)
      else
        let index = buildSpatialIndex_d points radius spawnXY_d;
            r2 = fmul radius radius;
            rng = fceil (fdiv radius (cellSize_d index))
        in foldOpt (\<lambda>point counts.
                      case countNeighbors_d index r2 rng point of
                        None \<Rightarrow> None
                      | Some cnt \<Rightarrow> Some (counts(id_d point \<mapsto> cnt)))
             points Map.empty)"

definition dist2PointToSegment_d :: "XY_d \<Rightarrow> 'a XY_d_scheme \<Rightarrow> 'b XY_d_scheme \<Rightarrow> number" where
  "dist2PointToSegment_d p a b =
     (let abx = fsub (x_d b) (x_d a);
          aby = fsub (y_d b) (y_d a);
          apx = fsub (x_d p) (x_d a);
          apy = fsub (y_d p) (y_d a);
          abLen2 = fadd (fmul abx abx) (fmul aby aby)
      in if flt abLen2 num_1e_12 then fadd (fmul apx apx) (fmul apy apy)
         else
           let t = fdiv (fadd (fmul apx abx) (fmul apy aby)) abLen2;
               t = fmax (Fin 0) (fmin (Fin 1) t);
               cx = fadd (x_d a) (fmul t abx);
               cy = fadd (y_d a) (fmul t aby);
               dx = fsub (x_d p) cx;
               dy = fsub (y_d p) cy
           in fadd (fmul dx dx) (fmul dy dy))"

definition segmentAvoidsDense_d :: "'a XY_d_scheme \<Rightarrow> 'b XY_d_scheme \<Rightarrow> SpawnXYZ_d SpatialIndex_d option \<Rightarrow> number \<Rightarrow> bool option" where
  "segmentAvoidsDense_d a b denseIndex avoidRadius =
     (case denseIndex of
        None \<Rightarrow> Some True
      | Some index \<Rightarrow>
          if \<not> flt (Fin 0) avoidRadius then Some True
          else if length (cells_d index) = 0 then Some True
          else
            let minX = fsub (fmin (x_d a) (x_d b)) avoidRadius;
                maxX = fadd (fmax (x_d a) (x_d b)) avoidRadius;
                minY = fsub (fmin (y_d a) (y_d b)) avoidRadius;
                maxY = fadd (fmax (y_d a) (y_d b)) avoidRadius;
                minCx = toCell_d minX (cellSize_d index);
                maxCx = toCell_d maxX (cellSize_d index);
                minCy = toCell_d minY (cellSize_d index);
                maxCy = toCell_d maxY (cellSize_d index);
                r2 = fmul avoidRadius avoidRadius
            in forUpAll minCy maxCy
                 (\<lambda>cy. forUpAll minCx maxCx
                    (\<lambda>cx. Some (case map_of (cells_d index) (cellKey_d cx cy) of
                                   None \<Rightarrow> True
                                 | Some bucket \<Rightarrow>
                                     list_all (\<lambda>dense. \<not> fle (dist2PointToSegment_d (spawnXY_d dense) a b) r2)
                                       bucket))))"

subsection \<open>The route builder\<close>

record AutoRouteSettings_d =
  center_d :: XY_d
  maxAreaRadius_d :: number
  maxStepDistance_d :: number
  maxWaypoints_d :: number
  avoidDenseTravelRadius_d :: number

record AutoRouteResult_d =
  route_d :: "SpawnXYZ_d list"
  stats_d :: AutoRouteStats

text \<open>
  The sort, as before. It asks whether \<open>cmp(v, w) > 0\<close>; a comparator result of \<open>NaN\<close>
  counts as 0. When ids are \<open>NaN\<close> or infinite the comparator of the start candidates is
  not consistent and the order an engine produces is its own choice; what is proved below
  of the route does not depend on the order.
\<close>

fun insertCmp_d :: "('a \<Rightarrow> 'a \<Rightarrow> number) \<Rightarrow> 'a \<Rightarrow> 'a list \<Rightarrow> 'a list" where
  "insertCmp_d cmp v [] = [v]"
| "insertCmp_d cmp v (w # ws) = (if \<not> flt (Fin 0) (cmp v w) then v # w # ws else w # insertCmp_d cmp v ws)"

definition sortCmp_d :: "('a \<Rightarrow> 'a \<Rightarrow> number) \<Rightarrow> 'a list \<Rightarrow> 'a list" where
  "sortCmp_d cmp vs = foldr (insertCmp_d cmp) vs []"

definition routeMaxWaypoints_d :: "AutoRouteSettings_d \<Rightarrow> number" where
  "routeMaxWaypoints_d settings =
     (let safeMax = fmax (Fin 0) (ffloor (maxWaypoints_d settings))
      in if flt (Fin 0) safeMax then safeMax else Fin 0)"

definition maxAreaR2_d :: "AutoRouteSettings_d \<Rightarrow> number" where
  "maxAreaR2_d settings =
     (if flt (Fin 0) (maxAreaRadius_d settings)
      then fmul (maxAreaRadius_d settings) (maxAreaRadius_d settings)
      else PInf)"

definition inAreaPoints_d :: "SpawnXYZ_d list \<Rightarrow> AutoRouteSettings_d \<Rightarrow> SpawnXYZ_d list" where
  "inAreaPoints_d points settings =
     filter (\<lambda>point. fle (dist2_d (center_d settings) point) (maxAreaR2_d settings)) points"

definition denseInAreaPoints_d :: "SpawnXYZ_d list \<Rightarrow> number set \<Rightarrow> AutoRouteSettings_d \<Rightarrow> SpawnXYZ_d list" where
  "denseInAreaPoints_d points denseIds settings =
     filter (\<lambda>point. id_d point \<in> denseIds) (inAreaPoints_d points settings)"

definition safeInAreaPoints_d :: "SpawnXYZ_d list \<Rightarrow> number set \<Rightarrow> AutoRouteSettings_d \<Rightarrow> SpawnXYZ_d list" where
  "safeInAreaPoints_d points denseIds settings =
     filter (\<lambda>point. \<not> id_d point \<in> denseIds) (inAreaPoints_d points settings)"

definition travelR2_d :: "AutoRouteSettings_d \<Rightarrow> number" where
  "travelR2_d settings =
     (if flt (Fin 0) (maxAreaRadius_d settings) \<and> flt (Fin 0) (avoidDenseTravelRadius_d settings)
      then fmul (fadd (maxAreaRadius_d settings) (avoidDenseTravelRadius_d settings))
                (fadd (maxAreaRadius_d settings) (avoidDenseTravelRadius_d settings))
      else PInf)"

definition denseForTravel_d :: "SpawnXYZ_d list \<Rightarrow> number set \<Rightarrow> AutoRouteSettings_d \<Rightarrow> SpawnXYZ_d list" where
  "denseForTravel_d points denseIds settings =
     (if flt (Fin 0) (avoidDenseTravelRadius_d settings)
      then filter (\<lambda>point. id_d point \<in> denseIds
                     \<and> fle (dist2_d (center_d settings) point) (travelR2_d settings)) points
      else [])"

definition routeDenseIndex_d :: "SpawnXYZ_d list \<Rightarrow> number set \<Rightarrow> AutoRouteSettings_d \<Rightarrow> SpawnXYZ_d SpatialIndex_d option" where
  "routeDenseIndex_d points denseIds settings =
     (if flt (Fin 0) (avoidDenseTravelRadius_d settings)
         \<and> length (denseForTravel_d points denseIds settings) > 0
      then Some (buildSpatialIndex_d (denseForTravel_d points denseIds settings)
                   (avoidDenseTravelRadius_d settings) spawnXY_d)
      else None)"

definition routeStats_d :: "SpawnXYZ_d list \<Rightarrow> number set \<Rightarrow> AutoRouteSettings_d \<Rightarrow> nat \<Rightarrow> AutoRouteStats" where
  "routeStats_d points denseIds settings n =
     \<lparr>total = length points,
      inArea = length (inAreaPoints_d points settings),
      denseInArea = length (denseInAreaPoints_d points denseIds settings),
      safeInArea = length (safeInAreaPoints_d points denseIds settings),
      picked = n\<rparr>"

text \<open>
  What the closure \<open>buildGreedyPath\<close> captures; \<open>stepNeighborCounts\<close> is passed in, since
  computing it runs loops.
\<close>

record RouteEnv_d =
  envMaxWaypoints_d :: number
  envMaxStep_d :: number
  envMaxStep2_d :: number
  envAvoidRadius_d :: number
  envCenter_d :: XY_d
  envSafeInArea_d :: "SpawnXYZ_d list"
  envSafeIndex_d :: "SpawnXYZ_d SpatialIndex_d option"
  envDenseIndex_d :: "SpawnXYZ_d SpatialIndex_d option"
  envStepNeighborCounts_d :: "number \<rightharpoonup> number"

definition routeEnv_d :: "SpawnXYZ_d list \<Rightarrow> number set \<Rightarrow> AutoRouteSettings_d \<Rightarrow> (number \<rightharpoonup> number) \<Rightarrow> RouteEnv_d" where
  "routeEnv_d points denseIds settings stepNeighborCounts =
     (let maxStep = maxStepDistance_d settings;
          safe = safeInAreaPoints_d points denseIds settings
      in \<lparr>envMaxWaypoints_d = routeMaxWaypoints_d settings,
          envMaxStep_d = maxStep,
          envMaxStep2_d = (if flt (Fin 0) maxStep then fmul maxStep maxStep else PInf),
          envAvoidRadius_d = avoidDenseTravelRadius_d settings,
          envCenter_d = center_d settings,
          envSafeInArea_d = safe,
          envSafeIndex_d = (if flt (Fin 0) maxStep then Some (buildSpatialIndex_d safe maxStep spawnXY_d) else None),
          envDenseIndex_d = routeDenseIndex_d points denseIds settings,
          envStepNeighborCounts_d = stepNeighborCounts\<rparr>)"

definition closestToCenter_d :: "XY_d \<Rightarrow> SpawnXYZ_d list \<Rightarrow> SpawnXYZ_d option" where
  "closestToCenter_d c safe =
     fst (fold (\<lambda>point (best, bestD2).
                  let d2 = dist2_d c point
                  in if flt d2 bestD2 then (Some point, d2) else (best, bestD2))
            safe (None, PInf))"

record Scored_d =
  scPoint_d :: SpawnXYZ_d
  scLocal_d :: number
  scCenterD2_d :: number

definition localOf_d :: "(number \<rightharpoonup> number) \<Rightarrow> SpawnXYZ_d \<Rightarrow> number" where
  "localOf_d stepNeighborCounts point =
     fsub (case stepNeighborCounts (id_d point) of None \<Rightarrow> Fin 1 | Some c \<Rightarrow> c) (Fin 1)"

definition cmpStarts_d :: "Scored_d \<Rightarrow> Scored_d \<Rightarrow> number" where
  "cmpStarts_d a b =
     (if \<not> feq (scLocal_d a) (scLocal_d b) then fsub (scLocal_d b) (scLocal_d a)
      else if \<not> feq (scCenterD2_d a) (scCenterD2_d b) then fsub (scCenterD2_d a) (scCenterD2_d b)
      else fsub (id_d (scPoint_d a)) (id_d (scPoint_d b)))"

definition scoredStarts_d :: "RouteEnv_d \<Rightarrow> Scored_d list" where
  "scoredStarts_d env =
     sortCmp_d cmpStarts_d
       (map (\<lambda>point. \<lparr>scPoint_d = point,
                       scLocal_d = localOf_d (envStepNeighborCounts_d env) point,
                       scCenterD2_d = dist2_d (envCenter_d env) point\<rparr>)
            (envSafeInArea_d env))"

definition pushStart_d :: "Scored_d list \<Rightarrow> nat \<Rightarrow> error + SpawnXYZ_d list \<Rightarrow> error + SpawnXYZ_d list" where
  "pushStart_d scored index acc =
     (case acc of
        Inl e \<Rightarrow> Inl e
      | Inr starts \<Rightarrow>
          (case jsNth scored (int index) of
             None \<Rightarrow> Inl TypeError
           | Some s \<Rightarrow> Inr (starts @ [scPoint_d s])))"

definition startCandidates_d :: "RouteEnv_d \<Rightarrow> error + SpawnXYZ_d list" where
  "startCandidates_d env =
     (let scored = scoredStarts_d env;
          maxStartCandidates = min 12 (length scored)
      in case fold (pushStart_d scored) [0 ..< maxStartCandidates] (Inr []) of
           Inl e \<Rightarrow> Inl e
         | Inr cands \<Rightarrow>
             (case closestToCenter_d (envCenter_d env) (envSafeInArea_d env) of
                None \<Rightarrow> Inr cands
              | Some closest \<Rightarrow>
                  if \<not> list_ex (\<lambda>point. feq (id_d point) (id_d closest)) cands
                  then Inr (cands @ [closest]) else Inr cands))"

record Best_d =
  best_d :: "SpawnXYZ_d option"
  bestDegree_d :: number
  bestLocal_d :: number
  bestStepD2_d :: number
  bestCenterD2_d :: number

definition usesIndex_d :: "RouteEnv_d \<Rightarrow> SpawnXYZ_d SpatialIndex_d option" where
  "usesIndex_d env =
     (case envSafeIndex_d env of
        Some safeIndex \<Rightarrow>
          if flt (Fin 0) (envMaxStep_d env) \<and> isFinite_d (envMaxStep2_d env) then Some safeIndex else None
      | None \<Rightarrow> None)"

definition forwardDegree_d :: "RouteEnv_d \<Rightarrow> number set \<Rightarrow> SpawnXYZ_d \<Rightarrow> number option" where
  "forwardDegree_d env visited candidate =
     (case usesIndex_d env of
        Some safeIndex \<Rightarrow>
          (case queryPointsWithin_d safeIndex candidate (envMaxStep_d env) of
             None \<Rightarrow> None
           | Some neighbors \<Rightarrow>
               Some (fold (\<lambda>neighbor degree.
                             if feq (id_d neighbor) (id_d candidate) then degree
                             else if id_d neighbor \<in> visited then degree
                             else fadd degree (Fin 1))
                       neighbors (Fin 0)))
      | None \<Rightarrow> Some (fsub (ofNat (length (envSafeInArea_d env))) (ofNat (card visited))))"

definition chooseBest_d :: "SpawnXYZ_d \<Rightarrow> number \<Rightarrow> number \<Rightarrow> number \<Rightarrow> number \<Rightarrow> Best_d \<Rightarrow> Best_d" where
  "chooseBest_d candidate degree local stepD2 centerD2 st =
     (if flt (bestDegree_d st) degree
      then \<lparr>best_d = Some candidate, bestDegree_d = degree, bestLocal_d = local,
            bestStepD2_d = stepD2, bestCenterD2_d = centerD2\<rparr>
      else if flt degree (bestDegree_d st) then st
      else if flt (bestLocal_d st) local
      then st\<lparr>best_d := Some candidate, bestLocal_d := local,
              bestStepD2_d := stepD2, bestCenterD2_d := centerD2\<rparr>
      else if flt local (bestLocal_d st) then st
      else if flt stepD2 (bestStepD2_d st)
      then st\<lparr>best_d := Some candidate, bestStepD2_d := stepD2, bestCenterD2_d := centerD2\<rparr>
      else if flt (bestStepD2_d st) stepD2 then st
      else if flt centerD2 (bestCenterD2_d st)
      then st\<lparr>best_d := Some candidate, bestCenterD2_d := centerD2\<rparr>
      else st)"

definition considerCandidate_d :: "RouteEnv_d \<Rightarrow> SpawnXYZ_d \<Rightarrow> number set \<Rightarrow> SpawnXYZ_d \<Rightarrow> Best_d \<Rightarrow> Best_d option" where
  "considerCandidate_d env current visited candidate st =
     (if feq (id_d candidate) (id_d current) then Some st
      else if id_d candidate \<in> visited then Some st
      else
        let stepD2 = dist2_d current candidate
        in if flt (envMaxStep2_d env) stepD2 then Some st
           else
             (case segmentAvoidsDense_d current candidate (envDenseIndex_d env) (envAvoidRadius_d env) of
                None \<Rightarrow> None
              | Some avoids \<Rightarrow>
                  if \<not> avoids then Some st
                  else
                    (case forwardDegree_d env visited candidate of
                       None \<Rightarrow> None
                     | Some degree \<Rightarrow>
                         Some (chooseBest_d candidate degree
                                 (localOf_d (envStepNeighborCounts_d env) candidate)
                                 stepD2 (dist2_d (envCenter_d env) candidate) st))))"

definition stepCandidates_d :: "RouteEnv_d \<Rightarrow> SpawnXYZ_d \<Rightarrow> SpawnXYZ_d list option" where
  "stepCandidates_d env current =
     (case usesIndex_d env of
        Some safeIndex \<Rightarrow> queryPointsWithin_d safeIndex current (envMaxStep_d env)
      | None \<Rightarrow> Some (envSafeInArea_d env))"

definition pickBest_d :: "RouteEnv_d \<Rightarrow> SpawnXYZ_d \<Rightarrow> number set \<Rightarrow> Best_d option" where
  "pickBest_d env current visited =
     (case stepCandidates_d env current of
        None \<Rightarrow> None
      | Some candidates \<Rightarrow>
          foldOpt (considerCandidate_d env current visited) candidates
            \<lparr>best_d = None, bestDegree_d = Fin (- 1), bestLocal_d = Fin (- 1),
             bestStepD2_d = PInf, bestCenterD2_d = PInf\<rparr>)"

partial_function (option) greedyLoop_d :: "RouteEnv_d \<Rightarrow> SpawnXYZ_d list \<Rightarrow> number set \<Rightarrow> (error + SpawnXYZ_d list) option" where
  "greedyLoop_d env rt visited =
     (if flt (ofNat (length rt)) (envMaxWaypoints_d env) then
        (if rt = [] then Some (Inl TypeError)
         else
           (case pickBest_d env (last rt) visited of
              None \<Rightarrow> None
            | Some st \<Rightarrow>
                (case best_d st of
                   None \<Rightarrow> Some (Inr rt)
                 | Some b \<Rightarrow> greedyLoop_d env (rt @ [b]) (insert (id_d b) visited))))
      else Some (Inr rt))"

definition buildGreedyPath_d :: "RouteEnv_d \<Rightarrow> SpawnXYZ_d option \<Rightarrow> (error + SpawnXYZ_d list) option" where
  "buildGreedyPath_d env start =
     (case start of
        None \<Rightarrow> Some (Inl TypeError)
      | Some s \<Rightarrow> greedyLoop_d env [s] {id_d s})"

definition tryStart_d :: "RouteEnv_d \<Rightarrow> SpawnXYZ_d \<Rightarrow> error + (SpawnXYZ_d list \<times> number)
    \<Rightarrow> (error + (SpawnXYZ_d list \<times> number)) option" where
  "tryStart_d env start acc =
     (case acc of
        Inl e \<Rightarrow> Some (Inl e)
      | Inr (bestRoute, bestCost) \<Rightarrow>
          (case buildGreedyPath_d env (Some start) of
             None \<Rightarrow> None
           | Some (Inl e) \<Rightarrow> Some (Inl e)
           | Some (Inr rt) \<Rightarrow>
               if length rt > length bestRoute then Some (Inr (rt, routeCost_d rt))
               else if length rt = length bestRoute then
                 (let cost = routeCost_d rt
                  in if flt cost bestCost then Some (Inr (rt, cost)) else Some (Inr (bestRoute, bestCost)))
               else Some (Inr (bestRoute, bestCost))))"

definition generateAutoRoute_d :: "SpawnXYZ_d list \<Rightarrow> number set \<Rightarrow> AutoRouteSettings_d
    \<Rightarrow> (error + AutoRouteResult_d) option" where
  "generateAutoRoute_d points denseIds settings =
     (let safe = safeInAreaPoints_d points denseIds settings;
          maxStep = maxStepDistance_d settings
      in if feq (routeMaxWaypoints_d settings) (Fin 0) \<or> length safe = 0
         then Some (Inr \<lparr>route_d = [], stats_d = routeStats_d points denseIds settings 0\<rparr>)
         else
           (case (if flt (Fin 0) maxStep then computeNeighborCounts_d safe maxStep else Some Map.empty) of
              None \<Rightarrow> None
            | Some stepNeighborCounts \<Rightarrow>
                let env = routeEnv_d points denseIds settings stepNeighborCounts
                in (case startCandidates_d env of
                      Inl e \<Rightarrow> Some (Inl e)
                    | Inr cands \<Rightarrow>
                        (case buildGreedyPath_d env
                                (case jsNth cands 0 of Some s \<Rightarrow> Some s | None \<Rightarrow> jsNth safe 0) of
                           None \<Rightarrow> None
                         | Some (Inl e) \<Rightarrow> Some (Inl e)
                         | Some (Inr first) \<Rightarrow>
                             (case foldOpt (tryStart_d env) (drop 1 cands) (Inr (first, routeCost_d first)) of
                                None \<Rightarrow> None
                              | Some (Inl e) \<Rightarrow> Some (Inl e)
                              | Some (Inr (bestRoute, bestCost)) \<Rightarrow>
                                  Some (Inr \<lparr>route_d = bestRoute,
                                             stats_d = routeStats_d points denseIds settings (length bestRoute)\<rparr>))))))"

subsection \<open>Auxiliary notions for the proofs in double arithmetic\<close>

text \<open>
  Invariants of the greedy walk, as before: no step of the route exceeds the limit in the
  comparison the code makes (\<open>stepD2 > maxStep2\<close> is false); the index of safe points, when
  there is one, is the index built from them; the route is non-empty and made of safe points.
\<close>

fun stepsWithin_d :: "number \<Rightarrow> SpawnXYZ_d list \<Rightarrow> bool" where
  "stepsWithin_d l (a # b # rest) = (\<not> flt l (dist2_d a b) \<and> stepsWithin_d l (b # rest))"
| "stepsWithin_d l rest = True"

definition envOk_d :: "RouteEnv_d \<Rightarrow> bool" where
  "envOk_d env \<longleftrightarrow>
     (case envSafeIndex_d env of
        None \<Rightarrow> True
      | Some idx \<Rightarrow> idx = buildSpatialIndex_d (envSafeInArea_d env) (envMaxStep_d env) spawnXY_d)"

definition goodRoute_d :: "RouteEnv_d \<Rightarrow> SpawnXYZ_d list \<Rightarrow> bool" where
  "goodRoute_d env rt \<longleftrightarrow>
     rt \<noteq> [] \<and> set rt \<subseteq> set (envSafeInArea_d env) \<and> stepsWithin_d (envMaxStep2_d env) rt"

text \<open>Every point stored in some bucket of an index.\<close>

definition stored_d :: "'a SpatialIndex_d \<Rightarrow> 'a set" where
  "stored_d index = \<Union> (set ` snd ` set (cells_d index))"

text \<open>The reals that are doubles: \<open>m \<times> 2\<^sup>e\<close> with \<open>|m| < 2\<^sup>5\<^sup>3\<close> and \<open>-1074 \<le> e \<le> 971\<close>.\<close>

definition representable :: "real \<Rightarrow> bool" where
  "representable v \<longleftrightarrow> (\<exists>m e. v = of_int m * 2 powi e \<and> \<bar>m\<bar> < 2 ^ 53 \<and> - 1074 \<le> e \<and> e \<le> 971)"

subsection \<open>Concrete inputs\<close>

text \<open>
  Two points one unit apart in \<open>x\<close> and \<open>2\<^sup>-\<^sup>3\<^sup>0\<close> apart in \<open>y\<close>, with a step limit and an area
  radius of 1 around the first of them: their squared distance, \<open>1 + 2\<^sup>-\<^sup>6\<^sup>0\<close>, rounds to 1.
\<close>

definition edgeOffset :: real where
  "edgeOffset = 1 / 2 ^ 30"

definition edgeA :: SpawnXYZ_d where
  "edgeA = \<lparr>x_d = Fin 0, y_d = Fin 0, id_d = Fin 1, z_d = Fin 0\<rparr>"

definition edgeB :: SpawnXYZ_d where
  "edgeB = \<lparr>x_d = Fin 1, y_d = Fin edgeOffset, id_d = Fin 2, z_d = Fin 0\<rparr>"

definition edgeSettings :: AutoRouteSettings_d where
  "edgeSettings =
     \<lparr>center_d = \<lparr>x_d = Fin 0, y_d = Fin 0\<rparr>, maxAreaRadius_d = Fin 1, maxStepDistance_d = Fin 1,
      maxWaypoints_d = Fin 2, avoidDenseTravelRadius_d = Fin 0\<rparr>"

text \<open>
  The squared distance of two points with finite coordinates, in exact arithmetic: the
  quantity the specification speaks of.
\<close>

fun valueOf :: "number \<Rightarrow> real" where
  "valueOf (Fin a) = a"
| "valueOf a = 0"

definition planarDist2 :: "'a XY_d_scheme \<Rightarrow> 'b XY_d_scheme \<Rightarrow> real" where
  "planarDist2 a b = (valueOf (x_d a) - valueOf (x_d b))\<^sup>2 + (valueOf (y_d a) - valueOf (y_d b))\<^sup>2"

text \<open>The environment of the walk for these two points.\<close>

definition edgeEnv :: RouteEnv_d where
  "edgeEnv = routeEnv_d [edgeA, edgeB] {} edgeSettings [Fin 1 \<mapsto> Fin 2, Fin 2 \<mapsto> Fin 2]"

definition edgeResult :: AutoRouteResult_d where
  "edgeResult =
     \<lparr>route_d = [edgeA, edgeB],
      stats_d = \<lparr>total = 2, inArea = 2, denseInArea = 0, safeInArea = 2, picked = 2\<rparr>\<rparr>"

text \<open>A lone point whose cell coordinate is \<open>2\<^sup>5\<^sup>3\<close>, where adding 1 changes nothing.\<close>

definition farPoint :: SpawnXYZ_d where
  "farPoint = \<lparr>x_d = Fin (2 ^ 53), y_d = Fin 0, id_d = Fin 1, z_d = Fin 0\<rparr>"

text \<open>
  Two safe points at \<open>x = 2\<^sup>5\<^sup>3\<close> and \<open>x = 2\<^sup>5\<^sup>3 + 4\<close> and a dense point far above them, with an
  avoidance radius of 1 and no limit on area or step.
\<close>

definition stallA :: SpawnXYZ_d where
  "stallA = \<lparr>x_d = Fin (2 ^ 53), y_d = Fin 0, id_d = Fin 1, z_d = Fin 0\<rparr>"

definition stallB :: SpawnXYZ_d where
  "stallB = \<lparr>x_d = Fin (2 ^ 53 + 4), y_d = Fin 0, id_d = Fin 2, z_d = Fin 0\<rparr>"

definition stallDense :: SpawnXYZ_d where
  "stallDense = \<lparr>x_d = Fin (2 ^ 53), y_d = Fin 1024, id_d = Fin 3, z_d = Fin 0\<rparr>"

definition stallSettings :: AutoRouteSettings_d where
  "stallSettings =
     \<lparr>center_d = \<lparr>x_d = Fin (2 ^ 53), y_d = Fin 0\<rparr>, maxAreaRadius_d = Fin 0, maxStepDistance_d = Fin 0,
      maxWaypoints_d = Fin 2, avoidDenseTravelRadius_d = Fin 1\<rparr>"

definition stallEnv :: RouteEnv_d where
  "stallEnv = routeEnv_d [stallA, stallB, stallDense] {Fin 3} stallSettings Map.empty"

text \<open>A segment from \<open>(0, 0)\<close> to \<open>(4, 0)\<close> with a dense point at its midpoint.\<close>

definition midA :: XY_d where
  "midA = \<lparr>x_d = Fin 0, y_d = Fin 0\<rparr>"

definition midB :: XY_d where
  "midB = \<lparr>x_d = Fin 4, y_d = Fin 0\<rparr>"

definition midDense :: SpawnXYZ_d where
  "midDense = \<lparr>x_d = Fin 2, y_d = Fin 0, id_d = Fin 1, z_d = Fin 0\<rparr>"


text \<open>
  A segment of length \<open>2\<^sup>-\<^sup>2\<^sup>1\<close>, shorter than \<open>10\<^sup>-\<^sup>6\<close>, with a dense point at its midpoint and an
  avoidance radius of \<open>2\<^sup>-\<^sup>2\<^sup>4\<close>.
\<close>

definition shortLen :: real where
  "shortLen = 1 / 2 ^ 21"

definition shortHalf :: real where
  "shortHalf = 1 / 2 ^ 22"

definition shortReach :: real where
  "shortReach = 1 / 2 ^ 24"

definition shortA :: XY_d where
  "shortA = \<lparr>x_d = Fin 0, y_d = Fin 0\<rparr>"

definition shortB :: XY_d where
  "shortB = \<lparr>x_d = Fin shortLen, y_d = Fin 0\<rparr>"

definition shortDense :: SpawnXYZ_d where
  "shortDense = \<lparr>x_d = Fin shortHalf, y_d = Fin 0, id_d = Fin 1, z_d = Fin 0\<rparr>"

declare greedyLoop.simps [simp del]

declare digitsOf.simps [simp del]

section \<open>The grid scan finds what a full scan finds\<close>

text \<open>The key determines the cell: the rendering of a pair of integers is injective.\<close>

lemma lt10_cases: "(d::nat) < 10 \<Longrightarrow> d \<in> {0, 1, 2, 3, 4, 5, 6, 7, 8, 9}"
  by auto

lemma digitChar_inj: "d < 10 \<Longrightarrow> e < 10 \<Longrightarrow> digitChar d = digitChar e \<Longrightarrow> d = e"
  by (drule lt10_cases, drule lt10_cases) (auto simp: digitChar_def)

lemma digitChar_plain: "d < 10 \<Longrightarrow> digitChar d \<noteq> CHR '','' \<and> digitChar d \<noteq> CHR ''-''"
  by (drule lt10_cases) (auto simp: digitChar_def)

lemma digitsOf_plain: "c \<in> set (digitsOf n) \<Longrightarrow> c \<noteq> CHR '','' \<and> c \<noteq> CHR ''-''"
proof (induction n rule: digitsOf.induct)
  case (1 n)
  show ?case
  proof (cases "n < 10")
    case True
    then show ?thesis using "1.prems" digitChar_plain[of n] by (simp add: digitsOf.simps[of n])
  next
    case False
    then show ?thesis
      using "1.prems" "1.IH" digitChar_plain[of "n mod 10"]
      by (auto simp: digitsOf.simps[of n])
  qed
qed

lemma digitsOf_nonempty: "digitsOf n \<noteq> []"
  by (simp add: digitsOf.simps[of n])

lemma length_digitsOf_one: "length (digitsOf n) = Suc 0 \<longleftrightarrow> n < 10"
  using digitsOf_nonempty[of "n div 10"] by (auto simp: digitsOf.simps[of n])

lemma digitsOf_inj: "digitsOf n = digitsOf m \<Longrightarrow> n = m"
proof (induction n arbitrary: m rule: digitsOf.induct)
  case (1 n)
  show ?case
  proof (cases "n < 10")
    case True
    then have "length (digitsOf m) = Suc 0" using "1.prems" length_digitsOf_one[of n] by simp
    then have m: "m < 10" by (simp add: length_digitsOf_one)
    then have "digitChar n = digitChar m"
      using True "1.prems" by (simp add: digitsOf.simps[of n] digitsOf.simps[of m])
    then show ?thesis using True m by (rule digitChar_inj[rotated 2])
  next
    case False
    then have "length (digitsOf m) \<noteq> Suc 0" using "1.prems" length_digitsOf_one[of n] by simp
    then have m: "\<not> m < 10" by (simp add: length_digitsOf_one)
    have "digitsOf (n div 10) @ [digitChar (n mod 10)] = digitsOf (m div 10) @ [digitChar (m mod 10)]"
      using False m "1.prems" by (simp add: digitsOf.simps[of n] digitsOf.simps[of m])
    then have a: "digitsOf (n div 10) = digitsOf (m div 10)"
      and b: "digitChar (n mod 10) = digitChar (m mod 10)" by simp_all
    have "n div 10 = m div 10" using "1.IH"[OF False a] .
    moreover have "n mod 10 = m mod 10" using b by (intro digitChar_inj) simp_all
    ultimately show ?thesis by (metis div_mult_mod_eq)
  qed
qed

lemma numberToString_inj: "numberToString i = numberToString j \<Longrightarrow> i = j"
proof -
  assume h: "numberToString i = numberToString j"
  have hd: "hd (digitsOf n) \<noteq> CHR ''-''" for n
    using digitsOf_plain[of "hd (digitsOf n)" n] digitsOf_nonempty[of n] by simp
  consider "i < 0" "j < 0" | "i < 0" "\<not> j < 0" | "\<not> i < 0" "j < 0" | "\<not> i < 0" "\<not> j < 0"
    by blast
  then show ?thesis
  proof cases
    case 1
    then have "digitsOf (nat (- i)) = digitsOf (nat (- j))" using h by (simp add: numberToString_def)
    then have "nat (- i) = nat (- j)" by (rule digitsOf_inj)
    then show ?thesis using 1 by simp
  next
    case 2
    then have "CHR ''-'' # digitsOf (nat (- i)) = digitsOf (nat j)" using h by (simp add: numberToString_def)
    then have "hd (digitsOf (nat j)) = CHR ''-''" by (metis list.sel(1))
    then show ?thesis using hd by blast
  next
    case 3
    then have "digitsOf (nat i) = CHR ''-'' # digitsOf (nat (- j))" using h by (simp add: numberToString_def)
    then have "hd (digitsOf (nat i)) = CHR ''-''" by (metis list.sel(1))
    then show ?thesis using hd by blast
  next
    case 4
    then have "digitsOf (nat i) = digitsOf (nat j)" using h by (simp add: numberToString_def)
    then have "nat i = nat j" by (rule digitsOf_inj)
    then show ?thesis using 4 by simp
  qed
qed

lemma numberToString_no_comma: "CHR '','' \<notin> set (numberToString i)"
  using digitsOf_plain by (auto simp: numberToString_def)

lemma split_at_comma:
  assumes "u @ CHR '','' # v = w @ CHR '','' # z"
    and "CHR '','' \<notin> set u" and "CHR '','' \<notin> set w"
  shows "u = w \<and> v = z"
  using assms
proof (induction u arbitrary: w)
  case Nil
  then show ?case by (cases w) auto
next
  case (Cons c u)
  then show ?case by (cases w) auto
qed

lemma cellKey_eq_iff: "cellKey a b = cellKey c d \<longleftrightarrow> a = c \<and> b = d"
proof
  assume "cellKey a b = cellKey c d"
  then have "numberToString a = numberToString c \<and> numberToString b = numberToString d"
    unfolding cellKey_def
    using split_at_comma[of "numberToString a" "numberToString b" "numberToString c" "numberToString d"]
          numberToString_no_comma
    by simp
  then show "a = c \<and> b = d" using numberToString_inj by blast
qed simp

lemma map_of_addToCell:
  "map_of (addToCell s g item cs) =
     (map_of cs)(cellOf s g item \<mapsto> (case map_of cs (cellOf s g item) of None \<Rightarrow> [] | Some b \<Rightarrow> b) @ [item])"
  by (simp add: addToCell_def cellOf_def Let_def update_conv' split: option.splits)

lemma map_of_fold_addToCell:
  "map_of (fold (addToCell s g) items cs) key =
     (if filter (\<lambda>i. cellOf s g i = key) items = [] then map_of cs key
      else Some ((case map_of cs key of None \<Rightarrow> [] | Some b \<Rightarrow> b) @ filter (\<lambda>i. cellOf s g i = key) items))"
proof (induction items arbitrary: cs)
  case Nil
  then show ?case by simp
next
  case (Cons a items)
  show ?case
    by (simp add: Cons.IH map_of_addToCell)
qed

lemma bucketAt_build:
  "bucketAt (buildSpatialIndex items c g) key =
     filter (\<lambda>i. cellOf (max (1/1000000) c) g i = key) items"
  by (simp add: bucketAt_def buildSpatialIndex_def Let_def map_of_fold_addToCell)

lemma map_of_build:
  "map_of (cells (buildSpatialIndex items c g)) key =
     (if filter (\<lambda>i. cellOf (max (1/1000000) c) g i = key) items = [] then None
      else Some (filter (\<lambda>i. cellOf (max (1/1000000) c) g i = key) items))"
  by (simp add: buildSpatialIndex_def Let_def map_of_fold_addToCell)

lemma cells_build_empty:
  "length (cells (buildSpatialIndex items c g)) = 0 \<longleftrightarrow> items = []"
proof (cases items)
  case Nil
  then show ?thesis by (simp add: buildSpatialIndex_def)
next
  case (Cons a list)
  have "filter (\<lambda>i. cellOf (max (1/1000000) c) g i = cellOf (max (1/1000000) c) g a) items \<noteq> []"
    using Cons by simp
  then have "map_of (cells (buildSpatialIndex items c g)) (cellOf (max (1/1000000) c) g a) \<noteq> None"
    by (simp only: map_of_build if_False) simp
  then have "cells (buildSpatialIndex items c g) \<noteq> []" by auto
  then show ?thesis using Cons by simp
qed

lemma countBucket_eq: "countBucket r2 p bucket c = c + int (length (filter (withinR2 r2 p) bucket))"
  unfolding countBucket_def by (induction bucket arbitrary: c) auto

lemma queryBucket_eq: "queryBucket r2 p bucket found = found @ filter (\<lambda>q. withinR2 r2 p q) bucket"
  unfolding queryBucket_def by (induction bucket arbitrary: found) auto

lemma countRow_eq:
  "countRow index r2 p cx cy rng dy c =
     c + int (length (filter (withinR2 r2 p)
           (concat (map (bucketAt index) (map (\<lambda>dx. cellKey (cx + dx) (cy + dy)) [- rng .. rng])))))"
proof -
  have "fold (\<lambda>dx cnt.
             case map_of (cells index) (cellKey (cx + dx) (cy + dy)) of
               None \<Rightarrow> cnt
             | Some bucket \<Rightarrow> countBucket r2 p bucket cnt) xs c
     = c + int (length (filter (withinR2 r2 p)
           (concat (map (bucketAt index) (map (\<lambda>dx. cellKey (cx + dx) (cy + dy)) xs)))))" for xs
    by (induction xs arbitrary: c) (auto simp: bucketAt_def countBucket_eq split: option.splits)
  then show ?thesis by (simp add: countRow_def)
qed

lemma countNeighbors_eq:
  "countNeighbors index r2 rng p =
     int (length (filter (withinR2 r2 p)
       (concat (map (bucketAt index)
          (window (toCell (px p) (cellSize index)) (toCell (py p) (cellSize index)) rng)))))"
proof -
  have "fold (countRow index r2 p cx cy rng) ys c
     = c + int (length (filter (withinR2 r2 p)
           (concat (map (bucketAt index)
              (concat (map (\<lambda>dy. map (\<lambda>dx. cellKey (cx + dx) (cy + dy)) [- rng .. rng]) ys))))))" for ys c cx cy
    by (induction ys arbitrary: c) (auto simp: countRow_eq)
  then show ?thesis by (simp add: countNeighbors_def window_def Let_def)
qed

lemma queryRow_eq:
  "queryRow index r2 p cx cy rng dy found =
     found @ filter (withinR2 r2 p)
           (concat (map (bucketAt index) (map (\<lambda>dx. cellKey (cx + dx) (cy + dy)) [- rng .. rng])))"
proof -
  have "fold (\<lambda>dx found.
             case map_of (cells index) (cellKey (cx + dx) (cy + dy)) of
               None \<Rightarrow> found
             | Some bucket \<Rightarrow> queryBucket r2 p bucket found) xs found
     = found @ filter (withinR2 r2 p)
           (concat (map (bucketAt index) (map (\<lambda>dx. cellKey (cx + dx) (cy + dy)) xs)))" for xs
    by (induction xs arbitrary: found) (auto simp: bucketAt_def queryBucket_eq split: option.splits)
  then show ?thesis by (simp add: queryRow_def)
qed

lemma queryPointsWithin_eq:
  "queryPointsWithin index c radius =
     (if \<not> (radius > 0) then []
      else if length (cells index) = 0 then []
      else filter (withinR2 (radius * radius) c)
       (concat (map (bucketAt index)
          (window (toCell (px c) (cellSize index)) (toCell (py c) (cellSize index))
             \<lceil>radius / cellSize index\<rceil>))))"
proof -
  have "fold (queryRow index r2 p cx cy rng) ys found
     = found @ filter (withinR2 r2 p)
           (concat (map (bucketAt index)
              (concat (map (\<lambda>dy. map (\<lambda>dx. cellKey (cx + dx) (cy + dy)) [- rng .. rng]) ys))))" for ys found cx cy r2 rng and p :: "'a XY_scheme"
    by (induction ys arbitrary: found) (auto simp: queryRow_eq)
  then show ?thesis by (simp add: queryPointsWithin_def window_def Let_def)
qed

lemma fold_ones:
  "fold (\<lambda>point counts. counts(pid point \<mapsto> (1::int))) ps m0 =
     (\<lambda>k. if k \<in> pid ` set ps then Some 1 else m0 k)"
  by (induction ps arbitrary: m0) (auto simp: fun_eq_iff)

text \<open>
  Claim C7: for a radius that is not positive, \<open>computeNeighborCounts\<close> maps the id of every
  input point to 1 and has no other key.
\<close>

theorem computeNeighborCounts_nonpositive_radius:
  assumes "radius \<le> 0"
  shows "computeNeighborCounts points radius = (\<lambda>k. if k \<in> pid ` set points then Some 1 else None)"
  using assms by (auto simp: computeNeighborCounts_def fold_ones)

theorem computeNeighborCounts_nonpositive_radius_witness:
  "(0::real) \<le> 0 \<and>
   computeNeighborCounts
     [\<lparr>px = 0, py = 0, pid = 1, pz = 0\<rparr>, \<lparr>px = 3, py = 4, pid = 2, pz = 0\<rparr>] 0
   = (\<lambda>k. if k \<in> pid ` set [\<lparr>px = 0, py = 0, pid = 1, pz = 0\<rparr>, \<lparr>px = 3, py = 4, pid = 2, pz = 0\<rparr>]
            then Some 1 else None)"
  using computeNeighborCounts_nonpositive_radius
          [of 0 "[\<lparr>px = 0, py = 0, pid = 1, pz = 0\<rparr>, \<lparr>px = 3, py = 4, pid = 2, pz = 0\<rparr>]"]
  by simp

section \<open>The greedy walk\<close>











lemma length_insertCmp: "length (insertCmp cmp v ws) = Suc (length ws)"
  by (induction ws) auto

lemma length_sortCmp: "length (sortCmp cmp vs) = length vs"
  unfolding sortCmp_def by (induction vs) (auto simp: length_insertCmp)

lemma fold_pushStart:
  "n \<le> length scored \<Longrightarrow>
   fold (pushStart scored) [0 ..< n] (Inr acc) = Inr (acc @ map scPoint (take n scored))"
proof (induction n)
  case 0
  then show ?case by simp
next
  case (Suc n)
  then show ?case
    by (simp add: pushStart_def jsNth_def take_Suc_conv_app_nth)
qed




lemma length_scoredStarts: "length (scoredStarts env) = length (envSafeInArea env)"
  by (simp add: scoredStarts_def length_sortCmp)






lemma routeMaxWaypoints_eq: "routeMaxWaypoints settings = max 0 \<lfloor>maxWaypoints settings\<rfloor>"
proof -
  define n where "n = \<lfloor>maxWaypoints settings\<rfloor>"
  have "(if max 0 n > 0 then max 0 n else 0) = max 0 n" by auto
  then show ?thesis unfolding routeMaxWaypoints_def cappedWaypoints_def Let_def n_def .
qed


section \<open>Properties of the returned route\<close>






section \<open>The tuner on degenerate input\<close>

lemma tuneAutoRouteParams_head:
  assumes "cappedWaypoints mw = 0 \<or> length points = 0"
  shows "tuneAutoRouteParams points c mw = Inr None"
proof (cases "cappedWaypoints mw = 0")
  case True
  show ?thesis
    unfolding tuneAutoRouteParams_def by (subst Let_def) (simp only: True if_True simp_thms)
next
  case False
  with assms have e: "length points = 0" by simp
  show ?thesis
    unfolding tuneAutoRouteParams_def by (subst Let_def) (simp only: False e if_False if_True simp_thms)
qed

lemma cappedWaypoints_nonpos: "mw \<le> 0 \<Longrightarrow> cappedWaypoints mw = 0"
proof -
  assume "mw \<le> 0"
  then have "\<lfloor>mw\<rfloor> \<le> 0" by (simp add: floor_le_iff)
  then show ?thesis by (simp add: cappedWaypoints_def)
qed

text \<open>
  Claim C6: \<open>tuneAutoRouteParams\<close> returns \<open>null\<close> when the point list is empty or
  \<open>maxWaypoints \<le> 0\<close>, whatever the center.
\<close>

theorem tuneAutoRouteParams_null:
  assumes "points = [] \<or> mw \<le> 0"
  shows "tuneAutoRouteParams points c mw = Inr None"
proof (rule tuneAutoRouteParams_head)
  from assms show "cappedWaypoints mw = 0 \<or> length points = 0"
    using cappedWaypoints_nonpos[of mw] by auto
qed

theorem tuneAutoRouteParams_null_witness:
  "(scenarioPoints = [] \<or> (0::real) \<le> 0) \<and>
   tuneAutoRouteParams scenarioPoints \<lparr>px = 0, py = 0\<rparr> 0 = Inr None"
proof -
  have h: "scenarioPoints = [] \<or> (0::real) \<le> 0" by simp
  from h tuneAutoRouteParams_null[OF h] show ?thesis by (rule conjI)
qed

section \<open>Segments and dense points\<close>

lemma cells_build_Nil: "cells (buildSpatialIndex items c g) = [] \<longleftrightarrow> items = []"
  using cells_build_empty[of items c g] by simp

text \<open>
  A segment shorter than \<open>10\<^sup>-\<^sup>6\<close> with a dense point exactly at its midpoint, and an
  avoidance radius smaller than half its length: the scan measures the distance to the
  end point \<open>a\<close> and lets the segment pass.
\<close>

theorem segmentAvoidsDense_midpoint_counterexample:
  "(0::real) < 1 / 100000000
   \<and> px \<lparr>px = 1 / 10000000, py = 0, pid = 1, pz = 0\<rparr>
       = (px \<lparr>px = 0, py = 0\<rparr> + px \<lparr>px = 2 / 10000000, py = 0\<rparr>) / 2
   \<and> py \<lparr>px = 1 / 10000000, py = 0, pid = 1, pz = 0\<rparr>
       = (py \<lparr>px = 0, py = 0\<rparr> + py \<lparr>px = 2 / 10000000, py = 0\<rparr>) / 2
   \<and> segmentAvoidsDense \<lparr>px = 0, py = 0\<rparr> \<lparr>px = 2 / 10000000, py = 0\<rparr>
        (Some (buildSpatialIndex [\<lparr>px = 1 / 10000000, py = 0, pid = 1, pz = 0\<rparr>]
                 (1 / 100000000) spawnXY))
        (1 / 100000000)"
  by (simp add: segmentAvoidsDense_def buildSpatialIndex_def addToCell_def toCell_def Let_def
        spawnXY_def upto_rec1 cellKey_eq_iff dist2PointToSegment_def)

section \<open>The scenario of the specification\<close>

lemma spawnAt_simps [simp]: "px (spawnAt u v i z) = u" "py (spawnAt u v i z) = v" "pid (spawnAt u v i z) = i"
  by (simp_all add: spawnAt_def)

lemma scenario_safe:
  "safeInAreaPoints [spawnAt 0 0 i1 z1, spawnAt 10 0 i2 z2, spawnAt 20 0 i3 z3, spawnAt 100 100 i4 z4] {} scenarioSettings
   = [spawnAt 0 0 i1 z1, spawnAt 10 0 i2 z2, spawnAt 20 0 i3 z3]"
  by (simp add: safeInAreaPoints_def inAreaPoints_def maxAreaR2_def scenarioSettings_def dist2_def)

lemma scenario_bucket:
  "bucketAt (buildSpatialIndex [spawnAt 0 0 i1 z1, spawnAt 10 0 i2 z2, spawnAt 20 0 i3 z3] 15 spawnXY) (cellKey a b)
   = (if a = 0 \<and> b = 0 then [spawnAt 0 0 i1 z1, spawnAt 10 0 i2 z2]
      else if a = 1 \<and> b = 0 then [spawnAt 20 0 i3 z3] else [])"
  by (simp add: bucketAt_build cellOf_def spawnXY_def toCell_def cellKey_eq_iff)

lemma scenario_window: "window cx cy 1 =
  [cellKey (cx - 1) (cy - 1), cellKey cx (cy - 1), cellKey (cx + 1) (cy - 1),
   cellKey (cx - 1) cy, cellKey cx cy, cellKey (cx + 1) cy,
   cellKey (cx - 1) (cy + 1), cellKey cx (cy + 1), cellKey (cx + 1) (cy + 1)]"
  by (simp add: window_def upto_rec1)

lemma scenario_cellSize: "cellSize (buildSpatialIndex items 15 g) = 15"
  by (simp add: buildSpatialIndex_def)

lemma scenario_query:
  "queryPointsWithin (buildSpatialIndex [spawnAt 0 0 i1 z1, spawnAt 10 0 i2 z2, spawnAt 20 0 i3 z3] 15 spawnXY)
      (spawnAt 0 0 i1 z1) 15 = [spawnAt 0 0 i1 z1, spawnAt 10 0 i2 z2]"
  "queryPointsWithin (buildSpatialIndex [spawnAt 0 0 i1 z1, spawnAt 10 0 i2 z2, spawnAt 20 0 i3 z3] 15 spawnXY)
      (spawnAt 10 0 i2 z2) 15 = [spawnAt 0 0 i1 z1, spawnAt 10 0 i2 z2, spawnAt 20 0 i3 z3]"
  "queryPointsWithin (buildSpatialIndex [spawnAt 0 0 i1 z1, spawnAt 10 0 i2 z2, spawnAt 20 0 i3 z3] 15 spawnXY)
      (spawnAt 20 0 i3 z3) 15 = [spawnAt 10 0 i2 z2, spawnAt 20 0 i3 z3]"
  by (simp_all add: queryPointsWithin_eq cells_build_Nil scenario_window scenario_bucket toCell_def withinR2_def
        scenario_cellSize)

lemma scenario_counts:
  assumes "distinct [i1, i2, i3]"
  shows "computeNeighborCounts [spawnAt 0 0 i1 z1, spawnAt 10 0 i2 z2, spawnAt 20 0 i3 z3] 15 i1 = Some 2"
    and "computeNeighborCounts [spawnAt 0 0 i1 z1, spawnAt 10 0 i2 z2, spawnAt 20 0 i3 z3] 15 i2 = Some 3"
    and "computeNeighborCounts [spawnAt 0 0 i1 z1, spawnAt 10 0 i2 z2, spawnAt 20 0 i3 z3] 15 i3 = Some 2"
  using assms
  by (simp_all add: computeNeighborCounts_def Let_def countNeighbors_eq scenario_window scenario_bucket
        scenario_cellSize toCell_def withinR2_def)

lemma scenario_local:
  assumes "distinct [i1, i2, i3]"
  shows "localOf (computeNeighborCounts [spawnAt 0 0 i1 z1, spawnAt 10 0 i2 z2, spawnAt 20 0 i3 z3] 15) (spawnAt 0 0 i1 z1) = 1"
    and "localOf (computeNeighborCounts [spawnAt 0 0 i1 z1, spawnAt 10 0 i2 z2, spawnAt 20 0 i3 z3] 15) (spawnAt 10 0 i2 z2) = 2"
    and "localOf (computeNeighborCounts [spawnAt 0 0 i1 z1, spawnAt 10 0 i2 z2, spawnAt 20 0 i3 z3] 15) (spawnAt 20 0 i3 z3) = 1"
  by (simp_all add: localOf_def scenario_counts[OF assms])

lemma scenarioEnv_fields:
  "envMaxWaypoints (scenarioEnv i1 i2 i3 i4 z1 z2 z3 z4) = 10"
  "envMaxStep (scenarioEnv i1 i2 i3 i4 z1 z2 z3 z4) = 15"
  "envMaxStep2 (scenarioEnv i1 i2 i3 i4 z1 z2 z3 z4) = Finite 225"
  "envAvoidRadius (scenarioEnv i1 i2 i3 i4 z1 z2 z3 z4) = 0"
  "envCenter (scenarioEnv i1 i2 i3 i4 z1 z2 z3 z4) = \<lparr>px = 0, py = 0\<rparr>"
  "envSafeInArea (scenarioEnv i1 i2 i3 i4 z1 z2 z3 z4) = [spawnAt 0 0 i1 z1, spawnAt 10 0 i2 z2, spawnAt 20 0 i3 z3]"
  "envSafeIndex (scenarioEnv i1 i2 i3 i4 z1 z2 z3 z4)
     = Some (buildSpatialIndex [spawnAt 0 0 i1 z1, spawnAt 10 0 i2 z2, spawnAt 20 0 i3 z3] 15 spawnXY)"
  "envDenseIndex (scenarioEnv i1 i2 i3 i4 z1 z2 z3 z4) = None"
  "envStepNeighborCounts (scenarioEnv i1 i2 i3 i4 z1 z2 z3 z4)
     = computeNeighborCounts [spawnAt 0 0 i1 z1, spawnAt 10 0 i2 z2, spawnAt 20 0 i3 z3] 15"
  by (simp_all add: scenarioEnv_def routeEnv_def Let_def scenario_safe routeMaxWaypoints_eq routeDenseIndex_def,
      simp_all add: scenarioSettings_def)

lemma scenario_scored:
  assumes "distinct [i1, i2, i3]"
  shows "map scPoint (scoredStarts (scenarioEnv i1 i2 i3 i4 z1 z2 z3 z4))
         = [spawnAt 10 0 i2 z2, spawnAt 0 0 i1 z1, spawnAt 20 0 i3 z3]"
  by (simp add: scoredStarts_def scenarioEnv_fields sortCmp_def cmpStarts_def scenario_local[OF assms] dist2_def)

lemma scenario_starts:
  assumes "distinct [i1, i2, i3]"
  shows "startCandidates (scenarioEnv i1 i2 i3 i4 z1 z2 z3 z4)
         = Inr [spawnAt 10 0 i2 z2, spawnAt 0 0 i1 z1, spawnAt 20 0 i3 z3]"
proof -
  have n: "min 12 (length (scoredStarts (scenarioEnv i1 i2 i3 i4 z1 z2 z3 z4))) = 3"
    by (simp add: length_scoredStarts scenarioEnv_fields)
  have c: "closestToCenter \<lparr>px = 0, py = 0\<rparr> [spawnAt 0 0 i1 z1, spawnAt 10 0 i2 z2, spawnAt 20 0 i3 z3]
           = Some (spawnAt 0 0 i1 z1)"
    by (simp add: closestToCenter_def dist2_def)
  have t: "map scPoint (take 3 (scoredStarts (scenarioEnv i1 i2 i3 i4 z1 z2 z3 z4)))
           = [spawnAt 10 0 i2 z2, spawnAt 0 0 i1 z1, spawnAt 20 0 i3 z3]"
    using scenario_scored[OF assms, of i4 z1 z2 z3 z4] length_scoredStarts[of "scenarioEnv i1 i2 i3 i4 z1 z2 z3 z4"]
    by (simp add: scenarioEnv_fields take_map[symmetric])
  have f: "fold (pushStart (scoredStarts (scenarioEnv i1 i2 i3 i4 z1 z2 z3 z4))) [0 ..< 3] (Inr [])
           = Inr [spawnAt 10 0 i2 z2, spawnAt 0 0 i1 z1, spawnAt 20 0 i3 z3]"
    using fold_pushStart[of 3 "scoredStarts (scenarioEnv i1 i2 i3 i4 z1 z2 z3 z4)" "[]"]
    by (simp only: t length_scoredStarts scenarioEnv_fields append_Nil) simp
  show ?thesis
    unfolding startCandidates_def Let_def n f
    using assms by (simp add: scenarioEnv_fields c)
qed

lemma scenario_cands:
  "stepCandidates (scenarioEnv i1 i2 i3 i4 z1 z2 z3 z4) (spawnAt 0 0 i1 z1) = [spawnAt 0 0 i1 z1, spawnAt 10 0 i2 z2]"
  "stepCandidates (scenarioEnv i1 i2 i3 i4 z1 z2 z3 z4) (spawnAt 10 0 i2 z2)
     = [spawnAt 0 0 i1 z1, spawnAt 10 0 i2 z2, spawnAt 20 0 i3 z3]"
  "stepCandidates (scenarioEnv i1 i2 i3 i4 z1 z2 z3 z4) (spawnAt 20 0 i3 z3) = [spawnAt 10 0 i2 z2, spawnAt 20 0 i3 z3]"
  by (simp_all add: stepCandidates_def scenarioEnv_fields isFinite_def scenario_query)

lemma scenario_degree:
  "forwardDegree (scenarioEnv i1 i2 i3 i4 z1 z2 z3 z4) visited (spawnAt 0 0 i1 z1)
     = (if i2 = i1 \<or> i2 \<in> visited then 0 else 1)"
  "forwardDegree (scenarioEnv i1 i2 i3 i4 z1 z2 z3 z4) visited (spawnAt 10 0 i2 z2)
     = (if i1 = i2 \<or> i1 \<in> visited then 0 else 1) + (if i3 = i2 \<or> i3 \<in> visited then 0 else 1)"
  "forwardDegree (scenarioEnv i1 i2 i3 i4 z1 z2 z3 z4) visited (spawnAt 20 0 i3 z3)
     = (if i2 = i3 \<or> i2 \<in> visited then 0 else 1)"
  by (simp_all add: forwardDegree_def scenarioEnv_fields isFinite_def scenario_query)

lemma scenario_pick:
  assumes "distinct [i1, i2, i3]"
  shows "pickBest (scenarioEnv i1 i2 i3 i4 z1 z2 z3 z4) (spawnAt 10 0 i2 z2) {i2} = Some (spawnAt 0 0 i1 z1)"
    and "pickBest (scenarioEnv i1 i2 i3 i4 z1 z2 z3 z4) (spawnAt 0 0 i1 z1) {i1, i2} = None"
    and "pickBest (scenarioEnv i1 i2 i3 i4 z1 z2 z3 z4) (spawnAt 0 0 i1 z1) {i1} = Some (spawnAt 10 0 i2 z2)"
    and "pickBest (scenarioEnv i1 i2 i3 i4 z1 z2 z3 z4) (spawnAt 10 0 i2 z2) {i1, i2} = Some (spawnAt 20 0 i3 z3)"
    and "pickBest (scenarioEnv i1 i2 i3 i4 z1 z2 z3 z4) (spawnAt 20 0 i3 z3) {i1, i2, i3} = None"
    and "pickBest (scenarioEnv i1 i2 i3 i4 z1 z2 z3 z4) (spawnAt 20 0 i3 z3) {i3} = Some (spawnAt 10 0 i2 z2)"
    and "pickBest (scenarioEnv i1 i2 i3 i4 z1 z2 z3 z4) (spawnAt 10 0 i2 z2) {i2, i3} = Some (spawnAt 0 0 i1 z1)"
    and "pickBest (scenarioEnv i1 i2 i3 i4 z1 z2 z3 z4) (spawnAt 0 0 i1 z1) {i1, i2, i3} = None"
  using assms
  by (simp_all add: pickBest_def scenario_cands considerCandidate_def Let_def scenario_degree scenarioEnv_fields
        segmentAvoidsDense_def scenario_local[OF assms] dist2_def)

lemma scenario_walks:
  assumes "distinct [i1, i2, i3]"
  shows "buildGreedyPath (scenarioEnv i1 i2 i3 i4 z1 z2 z3 z4) (Some (spawnAt 10 0 i2 z2))
           = Inr [spawnAt 10 0 i2 z2, spawnAt 0 0 i1 z1]"
    and "buildGreedyPath (scenarioEnv i1 i2 i3 i4 z1 z2 z3 z4) (Some (spawnAt 0 0 i1 z1))
           = Inr [spawnAt 0 0 i1 z1, spawnAt 10 0 i2 z2, spawnAt 20 0 i3 z3]"
    and "buildGreedyPath (scenarioEnv i1 i2 i3 i4 z1 z2 z3 z4) (Some (spawnAt 20 0 i3 z3))
           = Inr [spawnAt 20 0 i3 z3, spawnAt 10 0 i2 z2, spawnAt 0 0 i1 z1]"
  by (simp_all add: buildGreedyPath_def greedyLoop.simps scenarioEnv_fields scenario_pick[OF assms]
        insert_commute)

lemma scenario_route:
  assumes "distinct [i1, i2, i3, i4]"
  shows "generateAutoRoute [spawnAt 0 0 i1 z1, spawnAt 10 0 i2 z2, spawnAt 20 0 i3 z3, spawnAt 100 100 i4 z4] {}
            scenarioSettings
         = Inr \<lparr>route = [spawnAt 0 0 i1 z1, spawnAt 10 0 i2 z2, spawnAt 20 0 i3 z3],
                stats = \<lparr>total = 4, inArea = 3, denseInArea = 0, safeInArea = 3, picked = 3\<rparr>\<rparr>"
proof -
  have d: "distinct [i1, i2, i3]" using assms by simp
  have s: "routeStats [spawnAt 0 0 i1 z1, spawnAt 10 0 i2 z2, spawnAt 20 0 i3 z3, spawnAt 100 100 i4 z4] {}
             scenarioSettings n
           = \<lparr>total = 4, inArea = 3, denseInArea = 0, safeInArea = 3, picked = n\<rparr>" for n
    by (simp add: routeStats_def scenario_safe denseInAreaPoints_def)
       (simp add: inAreaPoints_def maxAreaR2_def scenarioSettings_def dist2_def)
  show ?thesis
    unfolding generateAutoRoute_def Let_def scenarioEnv_def[symmetric]
    by (simp add: scenarioEnv_fields scenario_starts[OF d] jsNth_def scenario_walks[OF d] tryStart_def Let_def s
          dist2_def)
qed

text \<open>
  Claim C8: for the four points \<open>(0,0)\<close>, \<open>(10,0)\<close>, \<open>(20,0)\<close>, \<open>(100,100)\<close> with any
  distinct ids (and any heights), no dense ids, center \<open>(0,0)\<close>, \<open>maxAreaRadius = 50\<close>,
  \<open>maxStepDistance = 15\<close>, \<open>maxWaypoints = 10\<close> and \<open>avoidDenseTravelRadius = 0\<close>, the
  route is the first three points in their order, with their ids, and \<open>inArea = 3\<close>,
  \<open>picked = 3\<close>.
\<close>

theorem generateAutoRoute_scenario:
  assumes "distinct [i1, i2, i3, i4]"
  shows "generateAutoRoute
           [\<lparr>px = 0, py = 0, pid = i1, pz = z1\<rparr>, \<lparr>px = 10, py = 0, pid = i2, pz = z2\<rparr>,
            \<lparr>px = 20, py = 0, pid = i3, pz = z3\<rparr>, \<lparr>px = 100, py = 100, pid = i4, pz = z4\<rparr>]
           {}
           \<lparr>center = \<lparr>px = 0, py = 0\<rparr>, maxAreaRadius = 50, maxStepDistance = 15,
            maxWaypoints = 10, avoidDenseTravelRadius = 0\<rparr>
         = Inr \<lparr>route = [\<lparr>px = 0, py = 0, pid = i1, pz = z1\<rparr>,
                         \<lparr>px = 10, py = 0, pid = i2, pz = z2\<rparr>,
                         \<lparr>px = 20, py = 0, pid = i3, pz = z3\<rparr>],
                stats = \<lparr>total = 4, inArea = 3, denseInArea = 0, safeInArea = 3, picked = 3\<rparr>\<rparr>"
  using scenario_route[OF assms, of z1 z2 z3 z4]
  by (simp only: spawnAt_def scenarioSettings_def)

theorem generateAutoRoute_scenario_witness:
  "distinct [1, 2, 3, 4 :: int] \<and>
   generateAutoRoute scenarioPoints {} scenarioSettings
     = Inr \<lparr>route = [\<lparr>px = 0, py = 0, pid = 1, pz = 0\<rparr>,
                     \<lparr>px = 10, py = 0, pid = 2, pz = 0\<rparr>,
                     \<lparr>px = 20, py = 0, pid = 3, pz = 0\<rparr>],
            stats = \<lparr>total = 4, inArea = 3, denseInArea = 0, safeInArea = 3, picked = 3\<rparr>\<rparr>"
proof -
  have h: "distinct [1, 2, 3, 4 :: int]" by simp
  from h generateAutoRoute_scenario[OF h, of 0 0 0 0] show ?thesis
    by (simp only: scenarioPoints_def scenarioSettings_def simp_thms)
qed

section \<open>Rounding to doubles\<close>

lemma roundHalfEven_of_int: "roundHalfEven (of_int j) = j"
  by (simp add: roundHalfEven_def)

lemma floor_log2_eq:
  assumes "2 powi k \<le> v" and "v < 2 powi (k + 1)"
  shows "\<lfloor>log 2 v\<rfloor> = k"
proof -
  have pos: "0 < v" using assms(1) by (smt (verit) zero_less_power_int)
  have "2 powr (of_int k) \<le> v \<and> v < 2 powr (of_int (k + 1))"
    using assms powr_real_of_int'[of 2 k] powr_real_of_int'[of 2 "k + 1"] by simp
  then show ?thesis using pos floor_log_eq_powr_iff[of v 2 k] by simp
qed

lemma rnd_eval:
  assumes "v \<noteq> 0" and "2 powi k \<le> \<bar>v\<bar>" and "\<bar>v\<bar> < 2 powi (k + 1)"
    and "u = 2 powi (max (- 1074) (k - 52))"
    and "roundHalfEven (v / u) = m"
    and "\<bar>of_int m * u\<bar> \<le> maxDouble"
  shows "rnd v = Fin (of_int m * u)"
proof -
  have "ulpExp v = max (- 1074) (k - 52)"
    unfolding ulpExp_def using floor_log2_eq[OF assms(2,3)] by simp
  then have u: "2 powi ulpExp v = u" using assms(4) by simp
  show ?thesis
    using assms(1,6) unfolding rnd_def Let_def u assms(5) by (simp add: abs_le_iff)
qed

lemma log2_bounds:
  assumes "v \<noteq> 0"
  shows "2 powi \<lfloor>log 2 \<bar>v\<bar>\<rfloor> \<le> \<bar>v\<bar>" and "\<bar>v\<bar> < 2 powi (\<lfloor>log 2 \<bar>v\<bar>\<rfloor> + 1)"
proof -
  have pos: "0 < \<bar>v\<bar>" using assms by simp
  have "2 powr (of_int \<lfloor>log 2 \<bar>v\<bar>\<rfloor>) \<le> \<bar>v\<bar> \<and> \<bar>v\<bar> < 2 powr (of_int (\<lfloor>log 2 \<bar>v\<bar>\<rfloor> + 1))"
    using floor_log_eq_powr_iff[OF pos, of 2 "\<lfloor>log 2 \<bar>v\<bar>\<rfloor>"] by simp
  then show "2 powi \<lfloor>log 2 \<bar>v\<bar>\<rfloor> \<le> \<bar>v\<bar>" and "\<bar>v\<bar> < 2 powi (\<lfloor>log 2 \<bar>v\<bar>\<rfloor> + 1)"
    using powr_real_of_int'[of 2 "\<lfloor>log 2 \<bar>v\<bar>\<rfloor>"] powr_real_of_int'[of 2 "\<lfloor>log 2 \<bar>v\<bar>\<rfloor> + 1"]
    by simp_all
qed

lemma rnd_exact:
  assumes "representable v"
  shows "rnd v = Fin v"
proof (cases "v = 0")
  case True
  then show ?thesis by (simp add: rnd_def)
next
  case False
  obtain m e where me: "v = of_int m * 2 powi e" "\<bar>m\<bar> < 2 ^ 53" "- 1074 \<le> e" "e \<le> 971"
    using assms unfolding representable_def by blast
  define k where "k = \<lfloor>log 2 \<bar>v\<bar>\<rfloor>"
  define E where "E = max (- 1074) (k - 52)"
  have av: "\<bar>v\<bar> = of_int \<bar>m\<bar> * 2 powi e"
    using me(1) by (simp add: abs_mult)
  have "2 powi k \<le> \<bar>v\<bar>" unfolding k_def by (rule log2_bounds(1)[OF False])
  also have "\<bar>v\<bar> < 2 ^ 53 * 2 powi e"
  proof -
    have "real_of_int \<bar>m\<bar> < 2 ^ 53" using me(2) by (metis of_int_less_numeral_power_cancel_iff)
    then show ?thesis unfolding av by (simp add: mult_strict_right_mono)
  qed
  also have "\<dots> = 2 powi (53 + e)"
    by (simp add: power_int_add)
  finally have "k < 53 + e"
    by (smt (verit) power_int_increasing one_le_numeral)
  then have Ee: "E \<le> e" using me(3) by (simp add: E_def)
  have "v / 2 powi E = of_int m * 2 powi (e - E)"
    unfolding me(1) by (simp add: power_int_diff)
  also have "\<dots> = of_int (m * 2 ^ nat (e - E))"
    using Ee by (simp add: power_int_nonneg_exp)
  finally have r: "roundHalfEven (v / 2 powi E) = m * 2 ^ nat (e - E)"
    by (simp only: roundHalfEven_of_int)
  have bk: "real_of_int (m * 2 ^ nat (e - E)) * 2 powi E = v"
  proof -
    have "real_of_int (m * 2 ^ nat (e - E)) * 2 powi E = real_of_int m * (2 powi (e - E) * 2 powi E)"
      using Ee by (simp add: power_int_nonneg_exp)
    also have "\<dots> = of_int m * 2 powi e"
      by (simp add: power_int_add[symmetric])
    finally show ?thesis using me(1) by simp
  qed
  have bound: "\<bar>v\<bar> \<le> maxDouble"
  proof -
    have "real_of_int \<bar>m\<bar> \<le> 2 ^ 53 - 1"
    proof -
      have "\<bar>m\<bar> \<le> 2 ^ 53 - 1" using me(2) by simp
      then have "real_of_int \<bar>m\<bar> \<le> real_of_int (2 ^ 53 - 1)" by (rule of_int_le_iff[THEN iffD2])
      then show ?thesis by simp
    qed
    moreover have "(2::real) powi e \<le> 2 ^ 971"
      using power_int_increasing[of e 971 "2::real"] me(4) by simp
    ultimately have "real_of_int \<bar>m\<bar> * 2 powi e \<le> (2 ^ 53 - 1) * 2 ^ 971"
      by (intro mult_mono) simp_all
    then show ?thesis unfolding av maxDouble_def .
  qed
  show ?thesis
    using rnd_eval[OF False _ _ _ r, of k] log2_bounds[OF False] bound
    unfolding k_def[symmetric] E_def[symmetric] bk
    by simp
qed

lemma representable_of_int: "\<bar>i\<bar> < 2 ^ 53 \<Longrightarrow> representable (of_int i)"
  unfolding representable_def by (intro exI[of _ i] exI[of _ 0]) simp

lemma representable_uminus: "representable v \<Longrightarrow> representable (- v)"
  unfolding representable_def
  by (elim exE conjE) (rule_tac x = "- m" in exI, rule_tac x = e in exI, simp)

lemma representable_inverse_pow2: "k \<le> 1074 \<Longrightarrow> representable (1 / 2 ^ k)"
  unfolding representable_def
  by (intro exI[of _ 1] exI[of _ "- int k"]) (simp add: power_int_minus field_simps)

section \<open>Loops that count in doubles\<close>

lemma forUp_invariant:
  assumes "forUp i hi body s = Some r"
    and "Q s"
    and "\<And>j t t'. Q t \<Longrightarrow> body j t = Some t' \<Longrightarrow> Q t'"
  shows "Q r"
proof -
  let ?P = "\<lambda>(i::number) (hi::number) b s r. (\<forall>j t t'. Q t \<longrightarrow> b j t = Some t' \<longrightarrow> Q t') \<longrightarrow> Q s \<longrightarrow> Q r"
  have "?P i hi body s r"
  proof (rule forUp.raw_induct[where P = ?P, OF _ assms(1)], goal_cases)
    case (1 f i hi body s r)
    show ?case
    proof (intro impI)
      assume b: "\<forall>j t t'. Q t \<longrightarrow> body j t = Some t' \<longrightarrow> Q t'" and s: "Q s"
      show "Q r"
      proof (cases "fle i hi")
        case False
        then show ?thesis using 1(2) s by simp
      next
        case True
        then obtain s' where s': "body i s = Some s'" and f: "f (fadd i (Fin 1)) hi body s' = Some r"
          using 1(2) by (auto split: option.splits)
        have "Q s'" using b s s' by blast
        then show ?thesis using 1(1)[OF f] b by blast
      qed
    qed
  qed
  then show ?thesis using assms(2,3) by blast
qed


lemma forUpAll_stalls:
  assumes "fle i hi" and "fadd i (Fin 1) = i" and "body i = Some True"
  shows "forUpAll i hi body = None"
proof -
  let ?P = "\<lambda>i' hi' body' (r::bool). \<not> (i' = i \<and> hi' = hi \<and> body' = body)"
  have "?P i hi body r" if "forUpAll i hi body = Some r" for r
  proof (rule forUpAll.raw_induct[where P = ?P, OF _ that], goal_cases)
    case (1 f i' hi' body' r)
    show ?case
    proof
      assume e: "i' = i \<and> hi' = hi \<and> body' = body"
      then have "f i hi body = Some r" using 1(2) assms by simp
      from 1(1)[OF this] show False by simp
    qed
  qed
  then have "forUpAll i hi body \<noteq> Some r" for r by blast
  then show ?thesis by (cases "forUpAll i hi body") auto
qed

lemma forUpAll_step:
  "fle i hi \<Longrightarrow> body i = Some True \<Longrightarrow> forUpAll i hi body = forUpAll (fadd i (Fin 1)) hi body"
  by (subst forUpAll.simps) simp

lemma forUpAll_None:
  "fle i hi \<Longrightarrow> body i = None \<Longrightarrow> forUpAll i hi body = None"
  by (subst forUpAll.simps) simp



lemma forUp_step:
  "fle i hi \<Longrightarrow> body i s = Some s' \<Longrightarrow> forUp i hi body s = forUp (fadd i (Fin 1)) hi body s'"
  by (subst forUp.simps) simp

lemma forUp_done: "\<not> fle i hi \<Longrightarrow> forUp i hi body s = Some s"
  by (subst forUp.simps) simp

lemma foldOpt_invariant:
  assumes "foldOpt f vs s = Some r"
    and "Q s"
    and "\<And>v t t'. v \<in> set vs \<Longrightarrow> Q t \<Longrightarrow> f v t = Some t' \<Longrightarrow> Q t'"
  shows "Q r"
  using assms
proof (induction vs arbitrary: s)
  case Nil
  then show ?case by simp
next
  case (Cons v vs)
  from Cons.prems(1) obtain s' where s': "f v s = Some s'" and r: "foldOpt f vs s' = Some r"
    by (auto split: option.splits)
  have "Q s'" using Cons.prems(2,3) s' by auto
  from Cons.IH[OF r this] Cons.prems(3) show ?case by auto
qed

section \<open>What a scan of the grid can return\<close>

lemma set_update_subset: "set (AList.update k v cs) \<subseteq> insert (k, v) (set cs)"
  by (induction cs) auto

lemma stored_addToCell:
  "stored_d \<lparr>cellSize_d = c, cells_d = addToCell_d s g item cs\<rparr>
     \<subseteq> insert item (stored_d \<lparr>cellSize_d = c, cells_d = cs\<rparr>)"
proof
  fix v
  assume "v \<in> stored_d \<lparr>cellSize_d = c, cells_d = addToCell_d s g item cs\<rparr>"
  then obtain k b where kb: "(k, b) \<in> set (addToCell_d s g item cs)" and v: "v \<in> set b"
    by (auto simp: stored_d_def)
  define key where "key = cellKey_d (toCell_d (x_d (g item)) s) (toCell_d (y_d (g item)) s)"
  show "v \<in> insert item (stored_d \<lparr>cellSize_d = c, cells_d = cs\<rparr>)"
  proof (cases "map_of cs key")
    case None
    then have "addToCell_d s g item cs = AList.update key [item] cs"
      by (simp add: addToCell_d_def Let_def key_def)
    with kb set_update_subset[of key "[item]" cs] have "(k, b) = (key, [item]) \<or> (k, b) \<in> set cs"
      by auto
    then show ?thesis using v by (force simp: stored_d_def)
  next
    case (Some bucket)
    then have "addToCell_d s g item cs = AList.update key (bucket @ [item]) cs"
      by (simp add: addToCell_d_def Let_def key_def)
    with kb set_update_subset[of key "bucket @ [item]" cs]
    have "(k, b) = (key, bucket @ [item]) \<or> (k, b) \<in> set cs"
      by auto
    moreover have "(key, bucket) \<in> set cs" using Some by (rule map_of_SomeD)
    ultimately show ?thesis using v by (force simp: stored_d_def)
  qed
qed

lemma stored_fold_addToCell:
  "stored_d \<lparr>cellSize_d = c, cells_d = fold (addToCell_d s g) items cs\<rparr>
     \<subseteq> set items \<union> stored_d \<lparr>cellSize_d = c, cells_d = cs\<rparr>"
proof (induction items arbitrary: cs)
  case Nil
  then show ?case by simp
next
  case (Cons a items)
  show ?case using Cons.IH[of "addToCell_d s g a cs"] stored_addToCell[of c s g a cs] by auto
qed

lemma stored_build: "stored_d (buildSpatialIndex_d items c g) \<subseteq> set items"
  using stored_fold_addToCell[of "fmax num_1e_6 c" "fmax num_1e_6 c" g items "[]"]
  by (simp add: buildSpatialIndex_d_def Let_def stored_d_def)

lemma bucket_stored: "map_of (cells_d index) key = Some bucket \<Longrightarrow> set bucket \<subseteq> stored_d index"
  unfolding stored_d_def by (drule map_of_SomeD) force

lemma queryBucket_d_eq: "queryBucket_d r2 c bucket found = found @ filter (withinR2_d r2 c) bucket"
  unfolding queryBucket_d_def by (induction bucket arbitrary: found) auto

lemma queryPointsWithin_d_stored:
  assumes "queryPointsWithin_d index c r = Some found"
  shows "set found \<subseteq> stored_d index"
proof (cases "\<not> flt (Fin 0) r")
  case True
  then show ?thesis using assms by (simp add: queryPointsWithin_d_def)
next
  case r: False
  show ?thesis
  proof (cases "length (cells_d index) = 0")
    case True
    then show ?thesis using assms r by (simp add: queryPointsWithin_d_def)
  next
    case False
    define Q where "Q = (\<lambda>fs :: SpawnXYZ_d list. set fs \<subseteq> stored_d index)"
    have cell: "Q (case map_of (cells_d index) key of None \<Rightarrow> t | Some bucket \<Rightarrow> queryBucket_d r2 c bucket t)"
      if "Q t" for key t r2
      using that bucket_stored[of index key]
      unfolding Q_def by (auto simp: queryBucket_d_eq split: option.splits)
    have row: "Q t'" if "Q t" and "forUp lo hi (\<lambda>dx fs. Some (case map_of (cells_d index) (k dx) of
                           None \<Rightarrow> fs | Some bucket \<Rightarrow> queryBucket_d r2 c bucket fs)) t = Some t'"
      for lo hi k r2 t t'
      by (rule forUp_invariant[where Q = Q, OF that(2) that(1)]) (use cell in blast)
    define r2 where "r2 = fmul r r"
    define cx where "cx = toCell_d (x_d c) (cellSize_d index)"
    define cy where "cy = toCell_d (y_d c) (cellSize_d index)"
    define rng where "rng = fceil (fdiv r (cellSize_d index))"
    have "forUp (fneg rng) rng (\<lambda>dy. forUp (fneg rng) rng (\<lambda>dx fs. Some (case map_of (cells_d index) (cellKey_d (fadd cx dx) (fadd cy dy)) of
                           None \<Rightarrow> fs | Some bucket \<Rightarrow> queryBucket_d r2 c bucket fs))) [] = Some found"
      using assms r False unfolding queryPointsWithin_d_def Let_def r2_def cx_def cy_def rng_def
      by simp
    then have "Q found"
    proof (rule forUp_invariant[where Q = Q])
      show "Q []" by (simp add: Q_def)
    next
      fix j t t'
      assume "Q t" and "forUp (fneg rng) rng (\<lambda>dx fs. Some (case map_of (cells_d index) (cellKey_d (fadd cx dx) (fadd cy j)) of
                           None \<Rightarrow> fs | Some bucket \<Rightarrow> queryBucket_d r2 c bucket fs)) t = Some t'"
      then show "Q t'" by (rule row)
    qed
    then show ?thesis by (simp add: Q_def)
  qed
qed

section \<open>The greedy walk in double arithmetic\<close>

lemma stepsWithin_d_snoc:
  "stepsWithin_d l (rt @ [b]) \<longleftrightarrow> stepsWithin_d l rt \<and> (rt \<noteq> [] \<longrightarrow> \<not> flt l (dist2_d (last rt) b))"
  by (induction l rt rule: stepsWithin_d.induct) auto

lemma stepsWithin_d_nth:
  "stepsWithin_d l rt \<Longrightarrow> Suc i < length rt \<Longrightarrow> \<not> flt l (dist2_d (rt ! i) (rt ! Suc i))"
proof (induction l rt arbitrary: i rule: stepsWithin_d.induct)
  case (1 l a b rest)
  then show ?case by (cases i) auto
qed simp_all

lemma best_chooseBest_d:
  "best_d (chooseBest_d cand degree loc stepD2 centerD2 st) = best_d st
   \<or> best_d (chooseBest_d cand degree loc stepD2 centerD2 st) = Some cand"
  by (simp add: chooseBest_d_def)

lemma considerCandidate_d_best:
  assumes "considerCandidate_d env cur vis cand st = Some st'" and "best_d st' = Some b"
  shows "best_d st = Some b \<or> (b = cand \<and> \<not> flt (envMaxStep2_d env) (dist2_d cur cand))"
proof (cases "feq (id_d cand) (id_d cur) \<or> id_d cand \<in> vis \<or> flt (envMaxStep2_d env) (dist2_d cur cand)")
  case True
  have "considerCandidate_d env cur vis cand st = Some st"
  proof (cases "feq (id_d cand) (id_d cur)")
    case True
    then show ?thesis by (simp add: considerCandidate_d_def)
  next
    case f1: False
    show ?thesis
    proof (cases "id_d cand \<in> vis")
      case True
      then show ?thesis using f1 by (simp add: considerCandidate_d_def)
    next
      case False
      then have "flt (envMaxStep2_d env) (dist2_d cur cand)" using True f1 by simp
      then show ?thesis using f1 False by (simp add: considerCandidate_d_def Let_def)
    qed
  qed
  then have "st' = st" using assms(1) by simp
  then show ?thesis using assms(2) by simp
next
  case False
  then have eq: "(case segmentAvoidsDense_d cur cand (envDenseIndex_d env) (envAvoidRadius_d env) of
                None \<Rightarrow> None
              | Some avoids \<Rightarrow>
                  if \<not> avoids then Some st
                  else
                    (case forwardDegree_d env vis cand of
                       None \<Rightarrow> None
                     | Some degree \<Rightarrow>
                         Some (chooseBest_d cand degree
                                 (localOf_d (envStepNeighborCounts_d env) cand)
                                 (dist2_d cur cand) (dist2_d (envCenter_d env) cand) st))) = Some st'"
    using assms(1) by (simp add: considerCandidate_d_def Let_def)
  then obtain avoids where a: "segmentAvoidsDense_d cur cand (envDenseIndex_d env) (envAvoidRadius_d env) = Some avoids"
    by (cases "segmentAvoidsDense_d cur cand (envDenseIndex_d env) (envAvoidRadius_d env)") auto
  show ?thesis
  proof (cases avoids)
    case False
    then have "st' = st" using eq a by simp
    then show ?thesis using assms(2) by simp
  next
    case True
    then obtain degree where "st' = chooseBest_d cand degree
                                 (localOf_d (envStepNeighborCounts_d env) cand)
                                 (dist2_d cur cand) (dist2_d (envCenter_d env) cand) st"
      using eq a by (cases "forwardDegree_d env vis cand") auto
    then show ?thesis
      using assms(2) \<open>\<not> (feq (id_d cand) (id_d cur) \<or> id_d cand \<in> vis \<or> flt (envMaxStep2_d env) (dist2_d cur cand))\<close>
        best_chooseBest_d[of cand degree "localOf_d (envStepNeighborCounts_d env) cand"
                                      "dist2_d cur cand" "dist2_d (envCenter_d env) cand" st]
      by auto
  qed
qed

lemma foldOpt_considerCandidate_d_best:
  assumes "foldOpt (considerCandidate_d env cur vis) cands st = Some st'" and "best_d st' = Some b"
  shows "best_d st = Some b \<or> (b \<in> set cands \<and> \<not> flt (envMaxStep2_d env) (dist2_d cur b))"
  using assms
proof (induction cands arbitrary: st)
  case Nil
  then show ?case by simp
next
  case (Cons c cands)
  from Cons.prems(1) obtain s1 where s1: "considerCandidate_d env cur vis c st = Some s1"
      and r: "foldOpt (considerCandidate_d env cur vis) cands s1 = Some st'"
    by (cases "considerCandidate_d env cur vis c st") auto
  from Cons.IH[OF r Cons.prems(2)]
  have "best_d s1 = Some b \<or> (b \<in> set cands \<and> \<not> flt (envMaxStep2_d env) (dist2_d cur b))" .
  then show ?case
    using considerCandidate_d_best[OF s1, of b] by auto
qed

lemma stepCandidates_d_subset:
  assumes "envOk_d env" and "stepCandidates_d env cur = Some cands"
  shows "set cands \<subseteq> set (envSafeInArea_d env)"
proof (cases "usesIndex_d env")
  case None
  then show ?thesis using assms(2) by (simp add: stepCandidates_d_def)
next
  case (Some idx)
  then have "envSafeIndex_d env = Some idx"
    by (auto simp: usesIndex_d_def split: option.splits if_splits)
  then have i: "idx = buildSpatialIndex_d (envSafeInArea_d env) (envMaxStep_d env) spawnXY_d"
    using assms(1) by (simp add: envOk_d_def)
  have "queryPointsWithin_d idx cur (envMaxStep_d env) = Some cands"
    using assms(2) Some by (simp add: stepCandidates_d_def)
  then have "set cands \<subseteq> stored_d idx" by (rule queryPointsWithin_d_stored)
  also have "\<dots> \<subseteq> set (envSafeInArea_d env)" unfolding i by (rule stored_build)
  finally show ?thesis .
qed

lemma pickBest_d_Some:
  assumes "envOk_d env" and "pickBest_d env cur vis = Some st" and "best_d st = Some b"
  shows "b \<in> set (envSafeInArea_d env) \<and> \<not> flt (envMaxStep2_d env) (dist2_d cur b)"
proof -
  from assms(2) obtain cands where c: "stepCandidates_d env cur = Some cands"
      and f: "foldOpt (considerCandidate_d env cur vis) cands
                \<lparr>best_d = None, bestDegree_d = Fin (- 1), bestLocal_d = Fin (- 1),
                 bestStepD2_d = PInf, bestCenterD2_d = PInf\<rparr> = Some st"
    by (cases "stepCandidates_d env cur") (auto simp: pickBest_d_def)
  from foldOpt_considerCandidate_d_best[OF f assms(3)] stepCandidates_d_subset[OF assms(1) c]
  show ?thesis by auto
qed

lemma greedyLoop_d_good:
  assumes "greedyLoop_d env rt visited = Some (Inr r)" and "envOk_d env" and "goodRoute_d env rt"
  shows "goodRoute_d env r"
proof -
  let ?P = "\<lambda>env rt (visited :: number set) (y :: error + SpawnXYZ_d list).
              envOk_d env \<longrightarrow> goodRoute_d env rt \<longrightarrow> (\<forall>r. y = Inr r \<longrightarrow> goodRoute_d env r)"
  have "?P env rt visited (Inr r)"
  proof (rule greedyLoop_d.raw_induct[where P = ?P, OF _ assms(1)], goal_cases)
    case (1 f env rt visited y)
    show ?case
    proof (intro impI allI)
      fix r
      assume ok: "envOk_d env" and g: "goodRoute_d env rt" and y: "y = Inr r"
      have ne: "rt \<noteq> []" using g by (simp add: goodRoute_d_def)
      show "goodRoute_d env r"
      proof (cases "flt (ofNat (length rt)) (envMaxWaypoints_d env)")
        case False
        then show ?thesis using 1(2) g y by simp
      next
        case True
        then obtain st where st: "pickBest_d env (last rt) visited = Some st"
          using 1(2) ne by (cases "pickBest_d env (last rt) visited") auto
        show ?thesis
        proof (cases "best_d st")
          case None
          then show ?thesis using 1(2) True ne st g y by simp
        next
          case (Some b)
          then have rec: "f env (rt @ [b]) (insert (id_d b) visited) = Some y"
            using 1(2) True ne st by simp
          from pickBest_d_Some[OF ok st Some]
          have "goodRoute_d env (rt @ [b])"
            using g by (auto simp: goodRoute_d_def stepsWithin_d_snoc)
          with 1(1)[OF rec] ok y show ?thesis by blast
        qed
      qed
    qed
  qed
  then show ?thesis using assms(2,3) by blast
qed

lemma set_insertCmp_d: "set (insertCmp_d cmp v ws) = insert v (set ws)"
  by (induction ws) auto

lemma set_sortCmp_d: "set (sortCmp_d cmp vs) = set vs"
  unfolding sortCmp_d_def by (induction vs) (auto simp: set_insertCmp_d)

lemma fold_pushStart_d_Inl: "fold (pushStart_d scored) ns (Inl e) = Inl e"
  by (induction ns) (simp_all add: pushStart_d_def)

lemma fold_pushStart_d:
  "fold (pushStart_d scored) ns (Inr acc) = Inr cands
   \<Longrightarrow> set cands \<subseteq> set acc \<union> scPoint_d ` set scored"
proof (induction ns arbitrary: acc)
  case Nil
  then show ?case by auto
next
  case (Cons n ns)
  show ?case
  proof (cases "jsNth scored (int n)")
    case None
    then have "pushStart_d scored n (Inr acc) = Inl TypeError" by (simp add: pushStart_d_def)
    then have "fold (pushStart_d scored) (n # ns) (Inr acc) = Inl TypeError"
      by (simp only: fold_simps fold_pushStart_d_Inl)
    then show ?thesis using Cons.prems by simp
  next
    case (Some s)
    then have s: "s \<in> set scored" by (auto simp: jsNth_def split: if_splits)
    have "pushStart_d scored n (Inr acc) = Inr (acc @ [scPoint_d s])"
      using Some by (simp add: pushStart_d_def)
    then have "fold (pushStart_d scored) ns (Inr (acc @ [scPoint_d s])) = Inr cands"
      using Cons.prems by (simp only: fold_simps)
    from Cons.IH[OF this] s show ?thesis by auto
  qed
qed

lemma closest_fold_in_d:
  "fst (fold (\<lambda>point (b, bestD2).
                  let d2 = dist2_d c point
                  in if flt d2 bestD2 then (Some point, d2) else (b, bestD2))
            safe st) = Some p \<Longrightarrow> fst st = Some p \<or> p \<in> set safe"
proof (induction safe arbitrary: st)
  case Nil
  then show ?case by simp
next
  case (Cons a safe)
  from Cons.IH[OF Cons.prems[simplified]] show ?case
    by (cases st) (auto simp: Let_def split: if_splits)
qed

lemma closestToCenter_d_in: "closestToCenter_d c safe = Some p \<Longrightarrow> p \<in> set safe"
  unfolding closestToCenter_d_def by (drule closest_fold_in_d) simp

lemma startCandidates_d_subset:
  assumes "startCandidates_d env = Inr cands"
  shows "set cands \<subseteq> set (envSafeInArea_d env)"
proof -
  define sc where "sc = scoredStarts_d env"
  have sc: "scPoint_d ` set sc = set (envSafeInArea_d env)"
    by (simp add: sc_def scoredStarts_d_def set_sortCmp_d image_image)
  define pushed where "pushed = fold (pushStart_d sc) [0 ..< min 12 (length sc)] (Inr [])"
  have unf: "startCandidates_d env =
     (case pushed of
           Inl e \<Rightarrow> Inl e
         | Inr cands \<Rightarrow>
             (case closestToCenter_d (envCenter_d env) (envSafeInArea_d env) of
                None \<Rightarrow> Inr cands
              | Some closest \<Rightarrow>
                  if \<not> list_ex (\<lambda>point. feq (id_d point) (id_d closest)) cands
                  then Inr (cands @ [closest]) else Inr cands))"
    unfolding startCandidates_d_def Let_def sc_def pushed_def ..
  obtain c0 where c0: "pushed = Inr c0" using assms unfolding unf by (cases pushed) auto
  from fold_pushStart_d[OF c0[unfolded pushed_def]] sc have s0: "set c0 \<subseteq> set (envSafeInArea_d env)" by auto
  show ?thesis
  proof (cases "closestToCenter_d (envCenter_d env) (envSafeInArea_d env)")
    case None
    then show ?thesis using assms s0 unfolding unf c0 by simp
  next
    case (Some p)
    then have "p \<in> set (envSafeInArea_d env)" by (rule closestToCenter_d_in)
    then show ?thesis using assms s0 Some unfolding unf c0 by (auto split: if_splits)
  qed
qed

lemma buildGreedyPath_d_good:
  assumes "buildGreedyPath_d env (Some s) = Some (Inr r)" and "envOk_d env"
    and "s \<in> set (envSafeInArea_d env)"
  shows "goodRoute_d env r"
proof -
  have "goodRoute_d env [s]" using assms(3) by (simp add: goodRoute_d_def)
  moreover have "greedyLoop_d env [s] {id_d s} = Some (Inr r)"
    using assms(1) by (simp add: buildGreedyPath_d_def)
  ultimately show ?thesis using assms(2) greedyLoop_d_good by blast
qed

lemma foldOpt_tryStart_d_Inl: "foldOpt (tryStart_d env) vs (Inl e) = Some (Inl e)"
  by (induction vs) (simp_all add: tryStart_d_def)

lemma tryStart_d_cases:
  assumes "tryStart_d env s (Inr (r0, k0)) = Some (Inr (r1, k1))"
  shows "r1 = r0 \<or> buildGreedyPath_d env (Some s) = Some (Inr r1)"
proof (cases "buildGreedyPath_d env (Some s)")
  case None
  then show ?thesis using assms by (simp add: tryStart_d_def)
next
  case (Some a)
  show ?thesis
  proof (cases a)
    case (Inl e)
    then show ?thesis using assms Some by (simp add: tryStart_d_def)
  next
    case (Inr rt)
    then show ?thesis using assms Some by (simp add: tryStart_d_def Let_def split: if_splits)
  qed
qed

lemma foldOpt_tryStart_d_good:
  assumes "foldOpt (tryStart_d env) starts (Inr (r0, k0)) = Some (Inr (r, k))"
    and "envOk_d env" and "set starts \<subseteq> set (envSafeInArea_d env)" and "goodRoute_d env r0"
  shows "goodRoute_d env r"
  using assms(1,3,4)
proof (induction starts arbitrary: r0 k0)
  case Nil
  then show ?case by simp
next
  case (Cons s starts)
  from Cons.prems(1) obtain a1 where a1: "tryStart_d env s (Inr (r0, k0)) = Some a1"
      and rest: "foldOpt (tryStart_d env) starts a1 = Some (Inr (r, k))"
    by (cases "tryStart_d env s (Inr (r0, k0))") auto
  from rest foldOpt_tryStart_d_Inl[of env starts] obtain r1 k1 where a1': "a1 = Inr (r1, k1)"
    by (cases a1) auto
  from tryStart_d_cases[OF a1[unfolded a1']]
  have "goodRoute_d env r1"
    using Cons.prems(2,3) buildGreedyPath_d_good[OF _ assms(2), of s r1] by auto
  from Cons.IH[OF rest[unfolded a1'] _ this] Cons.prems(2) show ?case by simp
qed

lemma routeEnv_d_simps:
  "envSafeInArea_d (routeEnv_d points denseIds settings counts) = safeInAreaPoints_d points denseIds settings"
  "envMaxStep2_d (routeEnv_d points denseIds settings counts) =
     (if flt (Fin 0) (maxStepDistance_d settings)
      then fmul (maxStepDistance_d settings) (maxStepDistance_d settings) else PInf)"
  by (simp_all add: routeEnv_d_def Let_def)

lemma envOk_d_routeEnv_d: "envOk_d (routeEnv_d points denseIds settings counts)"
  by (simp add: envOk_d_def routeEnv_d_def Let_def)

lemma generateAutoRoute_d_early:
  assumes "feq (routeMaxWaypoints_d settings) (Fin 0)
           \<or> length (safeInAreaPoints_d points denseIds settings) = 0"
  shows "generateAutoRoute_d points denseIds settings =
           Some (Inr \<lparr>route_d = [], stats_d = routeStats_d points denseIds settings 0\<rparr>)"
  unfolding generateAutoRoute_d_def by (subst Let_def, subst Let_def) (simp only: assms if_True)

lemma generateAutoRoute_d_late:
  assumes "\<not> (feq (routeMaxWaypoints_d settings) (Fin 0)
           \<or> length (safeInAreaPoints_d points denseIds settings) = 0)"
    and "generateAutoRoute_d points denseIds settings = Some (Inr res)"
  shows "\<exists>counts cands first bestRoute bestCost.
           startCandidates_d (routeEnv_d points denseIds settings counts) = Inr cands
         \<and> buildGreedyPath_d (routeEnv_d points denseIds settings counts)
              (case jsNth cands 0 of Some s \<Rightarrow> Some s
               | None \<Rightarrow> jsNth (safeInAreaPoints_d points denseIds settings) 0) = Some (Inr first)
         \<and> foldOpt (tryStart_d (routeEnv_d points denseIds settings counts)) (drop 1 cands)
              (Inr (first, routeCost_d first)) = Some (Inr (bestRoute, bestCost))
         \<and> res = \<lparr>route_d = bestRoute,
                   stats_d = routeStats_d points denseIds settings (length bestRoute)\<rparr>"
proof -
  let ?safe = "safeInAreaPoints_d points denseIds settings"
  let ?ms = "maxStepDistance_d settings"
  define co where "co = (if flt (Fin 0) ?ms then computeNeighborCounts_d ?safe ?ms else Some Map.empty)"
  have unf: "generateAutoRoute_d points denseIds settings =
    (case co of
       None \<Rightarrow> None
     | Some stepNeighborCounts \<Rightarrow>
         (case startCandidates_d (routeEnv_d points denseIds settings stepNeighborCounts) of
            Inl e \<Rightarrow> Some (Inl e)
          | Inr cands \<Rightarrow>
              (case buildGreedyPath_d (routeEnv_d points denseIds settings stepNeighborCounts)
                      (case jsNth cands 0 of Some s \<Rightarrow> Some s | None \<Rightarrow> jsNth ?safe 0) of
                 None \<Rightarrow> None
               | Some (Inl e) \<Rightarrow> Some (Inl e)
               | Some (Inr first) \<Rightarrow>
                   (case foldOpt (tryStart_d (routeEnv_d points denseIds settings stepNeighborCounts))
                           (drop 1 cands) (Inr (first, routeCost_d first)) of
                      None \<Rightarrow> None
                    | Some (Inl e) \<Rightarrow> Some (Inl e)
                    | Some (Inr (bestRoute, bestCost)) \<Rightarrow>
                        Some (Inr \<lparr>route_d = bestRoute,
                                   stats_d = routeStats_d points denseIds settings (length bestRoute)\<rparr>)))))"
    unfolding generateAutoRoute_d_def Let_def co_def by (simp only: assms(1) if_False)
  from assms(2) obtain counts where counts: "co = Some counts"
    unfolding unf by (cases co) auto
  let ?env = "routeEnv_d points denseIds settings counts"
  from assms(2) obtain cands where cands: "startCandidates_d ?env = Inr cands"
    unfolding unf counts by (cases "startCandidates_d ?env") auto
  let ?start = "case jsNth cands 0 of Some s \<Rightarrow> Some s | None \<Rightarrow> jsNth ?safe 0"
  from assms(2) obtain first where first: "buildGreedyPath_d ?env ?start = Some (Inr first)"
    unfolding unf counts
    by (cases "buildGreedyPath_d ?env ?start") (auto simp: cands split: sum.splits)
  let ?fold = "foldOpt (tryStart_d ?env) (drop 1 cands) (Inr (first, routeCost_d first))"
  from assms(2) obtain bestRoute bestCost where b: "?fold = Some (Inr (bestRoute, bestCost))"
    unfolding unf counts
    by (cases ?fold) (auto simp: cands first split: sum.splits)
  have "res = \<lparr>route_d = bestRoute, stats_d = routeStats_d points denseIds settings (length bestRoute)\<rparr>"
    using assms(2) b unfolding unf counts by (simp add: cands first)
  with cands first b show ?thesis by blast
qed

lemma generateAutoRoute_d_cases:
  assumes "generateAutoRoute_d points denseIds settings = Some (Inr res)"
  shows "stats_d res = routeStats_d points denseIds settings (length (route_d res))
     \<and> set (route_d res) \<subseteq> set (safeInAreaPoints_d points denseIds settings)
     \<and> stepsWithin_d (if flt (Fin 0) (maxStepDistance_d settings)
                       then fmul (maxStepDistance_d settings) (maxStepDistance_d settings) else PInf)
         (route_d res)"
proof (cases "feq (routeMaxWaypoints_d settings) (Fin 0)
              \<or> length (safeInAreaPoints_d points denseIds settings) = 0")
  case True
  from generateAutoRoute_d_early[OF True] assms
  have "res = \<lparr>route_d = [], stats_d = routeStats_d points denseIds settings 0\<rparr>" by simp
  then show ?thesis by simp
next
  case False
  let ?safe = "safeInAreaPoints_d points denseIds settings"
  from False have ne: "?safe \<noteq> []" by simp
  from generateAutoRoute_d_late[OF False assms] obtain counts cands first bestRoute bestCost where
    c: "startCandidates_d (routeEnv_d points denseIds settings counts) = Inr cands"
    and b: "buildGreedyPath_d (routeEnv_d points denseIds settings counts)
              (case jsNth cands 0 of Some s \<Rightarrow> Some s | None \<Rightarrow> jsNth ?safe 0) = Some (Inr first)"
    and f: "foldOpt (tryStart_d (routeEnv_d points denseIds settings counts)) (drop 1 cands)
              (Inr (first, routeCost_d first)) = Some (Inr (bestRoute, bestCost))"
    and r: "res = \<lparr>route_d = bestRoute,
                   stats_d = routeStats_d points denseIds settings (length bestRoute)\<rparr>"
    by blast
  let ?env = "routeEnv_d points denseIds settings counts"
  have cs: "set cands \<subseteq> set ?safe"
    using startCandidates_d_subset[OF c] by (simp add: routeEnv_d_simps)
  obtain s0 where s0: "(case jsNth cands 0 of Some s \<Rightarrow> Some s | None \<Rightarrow> jsNth ?safe 0) = Some s0"
      and s0in: "s0 \<in> set ?safe"
  proof (cases cands)
    case Nil
    obtain p ps where "?safe = p # ps" using ne by (cases ?safe) auto
    then show ?thesis using Nil that[of p] by (simp add: jsNth_def)
  next
    case (Cons p ps)
    then show ?thesis using cs that[of p] by (simp add: jsNth_def)
  qed
  have g0: "goodRoute_d ?env first"
    using buildGreedyPath_d_good[OF b[unfolded s0] envOk_d_routeEnv_d] s0in
    by (simp add: routeEnv_d_simps)
  have "set (drop 1 cands) \<subseteq> set (envSafeInArea_d ?env)"
    using cs by (auto simp: routeEnv_d_simps dest: in_set_dropD)
  from foldOpt_tryStart_d_good[OF f envOk_d_routeEnv_d this g0]
  have "goodRoute_d ?env bestRoute" .
  then show ?thesis using r by (simp add: goodRoute_d_def routeEnv_d_simps)
qed

section \<open>Evaluating double arithmetic\<close>

lemma rnd_of_int: "\<bar>i\<bar> < 2 ^ 53 \<Longrightarrow> rnd (of_int i) = Fin (of_int i)"
  by (rule rnd_exact) (rule representable_of_int)

lemma rnd_0 [simp]: "rnd 0 = Fin 0"
  by (simp add: rnd_def)

lemma rnd_1 [simp]: "rnd 1 = Fin 1"
  using rnd_of_int[of 1] by simp

lemma rnd_numeral [simp]: "(numeral n :: int) < 2 ^ 53 \<Longrightarrow> rnd (numeral n) = Fin (numeral n)"
  using rnd_of_int[of "numeral n"] by simp

lemma rnd_neg_numeral [simp]: "(numeral n :: int) < 2 ^ 53 \<Longrightarrow> rnd (- numeral n) = Fin (- numeral n)"
  using rnd_of_int[of "- numeral n"] by simp

lemma rnd_neg_1 [simp]: "rnd (- 1) = Fin (- 1)"
  using rnd_of_int[of "- 1"] by simp

lemma rnd_tie_one: "rnd (1 + 1 / 2 ^ 60) = Fin 1"
  using rnd_eval[of "1 + 1 / 2 ^ 60" 0 "1 / 2 ^ 52" 4503599627370496]
  by (simp add: roundHalfEven_def maxDouble_def power_int_minus)

lemma num_1e_6_value: "num_1e_6 = Fin (4722366482869645 / 2 ^ 72)"
  unfolding num_1e_6_def
  using rnd_eval[of "1 / 10 ^ 6" "- 20" "1 / 2 ^ 72" 4722366482869645]
  by (simp add: roundHalfEven_def maxDouble_def power_int_minus)

lemma fmax_num_1e_6_one [simp]: "fmax num_1e_6 (Fin 1) = Fin 1"
  by (simp add: num_1e_6_value fmax_def)

lemma edge_rnd [simp]:
  "rnd edgeOffset = Fin edgeOffset"
  "rnd (- edgeOffset) = Fin (- edgeOffset)"
  "rnd (edgeOffset * edgeOffset) = Fin (edgeOffset * edgeOffset)"
  "rnd (1 + edgeOffset * edgeOffset) = Fin 1"
proof -
  have r: "representable edgeOffset" unfolding edgeOffset_def by (rule representable_inverse_pow2) simp
  show "rnd edgeOffset = Fin edgeOffset" using r by (rule rnd_exact)
  show "rnd (- edgeOffset) = Fin (- edgeOffset)" using r by (intro rnd_exact representable_uminus)
  have sq: "edgeOffset * edgeOffset = 1 / 2 ^ 60" by (simp add: edgeOffset_def)
  have "representable (1 / 2 ^ 60)" by (rule representable_inverse_pow2) simp
  then have "rnd (1 / 2 ^ 60) = Fin (1 / 2 ^ 60)" by (rule rnd_exact)
  then show "rnd (edgeOffset * edgeOffset) = Fin (edgeOffset * edgeOffset)"
    by (simp only: sq)
  show "rnd (1 + edgeOffset * edgeOffset) = Fin 1"
    using rnd_tie_one by (simp only: sq)
qed

lemma edgeOffset_bounds [simp]: "0 < edgeOffset" "edgeOffset < 1" "\<lfloor>edgeOffset\<rfloor> = 0" "edgeOffset \<noteq> 0"
  by (simp_all add: edgeOffset_def)

lemma edge_fields [simp]:
  "x_d edgeA = Fin 0" "y_d edgeA = Fin 0" "id_d edgeA = Fin 1"
  "x_d edgeB = Fin 1" "y_d edgeB = Fin edgeOffset" "id_d edgeB = Fin 2"
  by (simp_all add: edgeA_def edgeB_def)

lemma edge_dist2 [simp]:
  "dist2_d edgeA edgeA = Fin 0" "dist2_d edgeA edgeB = Fin 1"
  "dist2_d edgeB edgeA = Fin 1" "dist2_d edgeB edgeB = Fin 0"
  "dist2_d \<lparr>x_d = Fin 0, y_d = Fin 0\<rparr> edgeA = Fin 0"
  "dist2_d \<lparr>x_d = Fin 0, y_d = Fin 0\<rparr> edgeB = Fin 1"
  by (simp_all add: dist2_d_def fsub_def)

lemma edge_within [simp]:
  "withinR2_d (Fin 1) edgeA edgeA" "withinR2_d (Fin 1) edgeA edgeB"
  "withinR2_d (Fin 1) edgeB edgeA" "withinR2_d (Fin 1) edgeB edgeB"
  by (simp_all add: withinR2_d_def fsub_def fle_def feq_def)

section \<open>A step and a point just beyond the limits\<close>

lemmas loop_eval =
  forUp.simps[of "Fin (- 1)" "Fin 1"] forUp.simps[of "Fin 0" "Fin 1"]
  forUp.simps[of "Fin 1" "Fin 1"] forUp.simps[of "Fin 2" "Fin 1"]

lemma edge_settings [simp]:
  "center_d edgeSettings = \<lparr>x_d = Fin 0, y_d = Fin 0\<rparr>"
  "maxAreaRadius_d edgeSettings = Fin 1"
  "maxStepDistance_d edgeSettings = Fin 1"
  "maxWaypoints_d edgeSettings = Fin 2"
  "avoidDenseTravelRadius_d edgeSettings = Fin 0"
  by (simp_all add: edgeSettings_def)

lemma edge_areas:
  "inAreaPoints_d [edgeA, edgeB] edgeSettings = [edgeA, edgeB]"
  "denseInAreaPoints_d [edgeA, edgeB] {} edgeSettings = []"
  "safeInAreaPoints_d [edgeA, edgeB] {} edgeSettings = [edgeA, edgeB]"
  by (simp_all add: inAreaPoints_d_def denseInAreaPoints_d_def safeInAreaPoints_d_def
        maxAreaR2_d_def fle_def feq_def)

lemma edge_index:
  "buildSpatialIndex_d [edgeA, edgeB] (Fin 1) spawnXY_d =
     \<lparr>cellSize_d = Fin 1, cells_d = [((Fin 0, Fin 0), [edgeA]), ((Fin 1, Fin 0), [edgeB])]\<rparr>"
  by (simp add: buildSpatialIndex_d_def addToCell_d_def spawnXY_d_def toCell_d_def cellKey_d_def Let_def)

lemma edge_query:
  "queryPointsWithin_d \<lparr>cellSize_d = Fin 1, cells_d = [((Fin 0, Fin 0), [edgeA]), ((Fin 1, Fin 0), [edgeB])]\<rparr>
     edgeA (Fin 1) = Some [edgeA, edgeB]"
  "queryPointsWithin_d \<lparr>cellSize_d = Fin 1, cells_d = [((Fin 0, Fin 0), [edgeA]), ((Fin 1, Fin 0), [edgeB])]\<rparr>
     edgeB (Fin 1) = Some [edgeA, edgeB]"
  by (simp_all add: queryPointsWithin_d_def toCell_d_def cellKey_d_def queryBucket_d_eq
        loop_eval fle_def feq_def)

lemma edge_counts:
  "computeNeighborCounts_d [edgeA, edgeB] (Fin 1) = Some [Fin 1 \<mapsto> Fin 2, Fin 2 \<mapsto> Fin 2]"
  by (simp add: computeNeighborCounts_d_def edge_index countNeighbors_d_def countBucket_d_def
        toCell_d_def cellKey_d_def loop_eval fle_def feq_def)

lemma edgeEnv_fields:
  "envMaxWaypoints_d edgeEnv = Fin 2"
  "envMaxStep_d edgeEnv = Fin 1"
  "envMaxStep2_d edgeEnv = Fin 1"
  "envAvoidRadius_d edgeEnv = Fin 0"
  "envCenter_d edgeEnv = \<lparr>x_d = Fin 0, y_d = Fin 0\<rparr>"
  "envSafeInArea_d edgeEnv = [edgeA, edgeB]"
  "envSafeIndex_d edgeEnv =
     Some \<lparr>cellSize_d = Fin 1, cells_d = [((Fin 0, Fin 0), [edgeA]), ((Fin 1, Fin 0), [edgeB])]\<rparr>"
  "envDenseIndex_d edgeEnv = None"
  "envStepNeighborCounts_d edgeEnv = [Fin 1 \<mapsto> Fin 2, Fin 2 \<mapsto> Fin 2]"
  by (simp_all add: edgeEnv_def routeEnv_d_def Let_def edge_areas edge_index routeMaxWaypoints_d_def
        routeDenseIndex_d_def denseForTravel_d_def fmax_def)

lemma edge_usesIndex:
  "usesIndex_d edgeEnv =
     Some \<lparr>cellSize_d = Fin 1, cells_d = [((Fin 0, Fin 0), [edgeA]), ((Fin 1, Fin 0), [edgeB])]\<rparr>"
  by (simp add: usesIndex_d_def edgeEnv_fields)

lemma edge_local:
  "localOf_d [Fin 1 \<mapsto> Fin 2, Fin 2 \<mapsto> Fin 2] edgeA = Fin 1"
  "localOf_d [Fin 1 \<mapsto> Fin 2, Fin 2 \<mapsto> Fin 2] edgeB = Fin 1"
  by (simp_all add: localOf_d_def fsub_def)

lemma edge_starts: "startCandidates_d edgeEnv = Inr [edgeA, edgeB]"
  by (simp add: startCandidates_d_def scoredStarts_d_def sortCmp_d_def cmpStarts_d_def edge_local
        edgeEnv_fields closestToCenter_d_def pushStart_d_def jsNth_def Let_def fsub_def feq_def
        upt_rec[of 0] upt_rec[of 1] upt_rec[of 2])

lemma edge_pick:
  "\<exists>st. pickBest_d edgeEnv edgeA {Fin 1} = Some st \<and> best_d st = Some edgeB"
  "\<exists>st. pickBest_d edgeEnv edgeB {Fin 2} = Some st \<and> best_d st = Some edgeA"
  by (simp_all add: pickBest_d_def stepCandidates_d_def edge_usesIndex edgeEnv_fields edge_query
        considerCandidate_d_def segmentAvoidsDense_d_def forwardDegree_d_def chooseBest_d_def
        edge_local feq_def Let_def)

lemma edge_walks:
  "greedyLoop_d edgeEnv [edgeA] {Fin 1} = Some (Inr [edgeA, edgeB])"
  "greedyLoop_d edgeEnv [edgeB] {Fin 2} = Some (Inr [edgeB, edgeA])"
proof -
  from edge_pick(1) obtain st where st: "pickBest_d edgeEnv edgeA {Fin 1} = Some st" "best_d st = Some edgeB"
    by blast
  have stop: "greedyLoop_d edgeEnv [p, q] vis = Some (Inr [p, q])" for p q vis
    by (subst greedyLoop_d.simps) (simp add: edgeEnv_fields ofNat_def)
  show "greedyLoop_d edgeEnv [edgeA] {Fin 1} = Some (Inr [edgeA, edgeB])"
    by (subst greedyLoop_d.simps) (simp add: edgeEnv_fields ofNat_def st stop)
  from edge_pick(2) obtain st' where st': "pickBest_d edgeEnv edgeB {Fin 2} = Some st'" "best_d st' = Some edgeA"
    by blast
  show "greedyLoop_d edgeEnv [edgeB] {Fin 2} = Some (Inr [edgeB, edgeA])"
    by (subst greedyLoop_d.simps) (simp add: edgeEnv_fields ofNat_def st' stop)
qed

lemma edge_route:
  "generateAutoRoute_d [edgeA, edgeB] {} edgeSettings =
     Some (Inr \<lparr>route_d = [edgeA, edgeB],
                stats_d = \<lparr>total = 2, inArea = 2, denseInArea = 0, safeInArea = 2, picked = 2\<rparr>\<rparr>)"
proof -
  have mw: "routeMaxWaypoints_d edgeSettings = Fin 2"
    by (simp add: routeMaxWaypoints_d_def fmax_def)
  have ms: "maxStepDistance_d edgeSettings = Fin 1" by simp
  have t: "tryStart_d edgeEnv edgeB (Inr ([edgeA, edgeB], Fin 1)) = Some (Inr ([edgeA, edgeB], Fin 1))"
    by (simp add: tryStart_d_def buildGreedyPath_d_def edge_walks routeCost_d_def)
  show ?thesis
    unfolding generateAutoRoute_d_def Let_def edge_areas mw ms
    by (simp add: feq_def edge_counts edgeEnv_def[symmetric] edge_starts jsNth_def
          buildGreedyPath_d_def edge_walks routeCost_d_def t routeStats_d_def edge_areas)
qed

text \<open>
  Claim C3 says that with \<open>maxStepDistance > 0\<close> every two consecutive points of the route
  have planar squared distance at most \<open>maxStepDistance\<^sup>2\<close>. The code compares rounded
  doubles: for the points \<open>(0, 0)\<close> and \<open>(1, 2\<^sup>-\<^sup>3\<^sup>0)\<close> with \<open>maxStepDistance = 1\<close> it returns
  the route of both, whose step has squared length \<open>1 + 2\<^sup>-\<^sup>6\<^sup>0\<close>.
\<close>

theorem generateAutoRoute_d_step_counterexample:
  "generateAutoRoute_d [edgeA, edgeB] {} edgeSettings = Some (Inr edgeResult)
   \<and> route_d edgeResult = [edgeA, edgeB]
   \<and> flt (Fin 0) (maxStepDistance_d edgeSettings)
   \<and> \<not> planarDist2 edgeA edgeB \<le> (valueOf (maxStepDistance_d edgeSettings))\<^sup>2"
  by (simp add: edge_route edgeResult_def planarDist2_def edgeOffset_def)

text \<open>
  Claim C3, amended: whenever \<open>generateAutoRoute\<close> returns and \<open>maxStepDistance > 0\<close>, every
  two consecutive points of the route passed the test of the code, in double arithmetic:
  \<open>dist2(a, b) > maxStepDistance * maxStepDistance\<close> is false (the product is \<open>Infinity\<close>
  when it overflows).
\<close>

theorem generateAutoRoute_d_steps_within:
  assumes "generateAutoRoute_d points denseIds settings = Some (Inr res)"
    and "flt (Fin 0) (maxStepDistance_d settings)"
    and "Suc i < length (route_d res)"
  shows "\<not> flt (fmul (maxStepDistance_d settings) (maxStepDistance_d settings))
              (dist2_d (route_d res ! i) (route_d res ! Suc i))"
proof -
  from generateAutoRoute_d_cases[OF assms(1)] assms(2)
  have "stepsWithin_d (fmul (maxStepDistance_d settings) (maxStepDistance_d settings)) (route_d res)"
    by simp
  then show ?thesis using assms(3) by (rule stepsWithin_d_nth)
qed

theorem generateAutoRoute_d_steps_within_witness:
  "generateAutoRoute_d [edgeA, edgeB] {} edgeSettings = Some (Inr edgeResult)
   \<and> flt (Fin 0) (maxStepDistance_d edgeSettings)
   \<and> Suc 0 < length (route_d edgeResult)
   \<and> \<not> flt (fmul (maxStepDistance_d edgeSettings) (maxStepDistance_d edgeSettings))
            (dist2_d (route_d edgeResult ! 0) (route_d edgeResult ! Suc 0))"
proof -
  have r: "generateAutoRoute_d [edgeA, edgeB] {} edgeSettings = Some (Inr edgeResult)"
    by (simp add: edge_route edgeResult_def)
  have p: "flt (Fin 0) (maxStepDistance_d edgeSettings)" by simp
  have l: "Suc 0 < length (route_d edgeResult)" by (simp add: edgeResult_def)
  from r p l generateAutoRoute_d_steps_within[OF r p l] show ?thesis by (intro conjI)
qed

text \<open>
  Claim C10 says that the statistics add up and that every point of the route is an input
  point, not dense, whose planar squared distance to the center is at most
  \<open>maxAreaRadius\<^sup>2\<close> when \<open>maxAreaRadius > 0\<close>. The area test, too, compares rounded doubles:
  with center \<open>(0, 0)\<close> and \<open>maxAreaRadius = 1\<close> the point \<open>(1, 2\<^sup>-\<^sup>3\<^sup>0)\<close> is in the route, at
  squared distance \<open>1 + 2\<^sup>-\<^sup>6\<^sup>0\<close> from the center.
\<close>

theorem generateAutoRoute_d_area_counterexample:
  "generateAutoRoute_d [edgeA, edgeB] {} edgeSettings = Some (Inr edgeResult)
   \<and> edgeB \<in> set (route_d edgeResult)
   \<and> flt (Fin 0) (maxAreaRadius_d edgeSettings)
   \<and> \<not> planarDist2 (center_d edgeSettings) edgeB \<le> (valueOf (maxAreaRadius_d edgeSettings))\<^sup>2"
  by (simp add: edge_route edgeResult_def planarDist2_def edgeOffset_def)

text \<open>
  Claim C10, amended: whenever \<open>generateAutoRoute\<close> returns, \<open>stats.total\<close> is the number of
  input points, \<open>stats.inArea = stats.denseInArea + stats.safeInArea\<close>,
  \<open>stats.picked = route.length\<close>, and every point of the route is an input point whose id
  is not in \<open>denseIds\<close> and which, when \<open>maxAreaRadius > 0\<close>, passed the area test of the
  code in double arithmetic: \<open>dist2(center, point) <= maxAreaRadius * maxAreaRadius\<close>.
\<close>

theorem generateAutoRoute_d_stats_and_area:
  assumes "generateAutoRoute_d points denseIds settings = Some (Inr res)"
  shows "total (stats_d res) = length points
     \<and> inArea (stats_d res) = denseInArea (stats_d res) + safeInArea (stats_d res)
     \<and> picked (stats_d res) = length (route_d res)
     \<and> (\<forall>p \<in> set (route_d res).
           p \<in> set points \<and> id_d p \<notin> denseIds
           \<and> (flt (Fin 0) (maxAreaRadius_d settings) \<longrightarrow>
                fle (dist2_d (center_d settings) p)
                    (fmul (maxAreaRadius_d settings) (maxAreaRadius_d settings))))"
proof -
  from generateAutoRoute_d_cases[OF assms]
  have s: "stats_d res = routeStats_d points denseIds settings (length (route_d res))"
    and r: "set (route_d res) \<subseteq> set (safeInAreaPoints_d points denseIds settings)"
    by simp_all
  have "length (inAreaPoints_d points settings)
          = length (denseInAreaPoints_d points denseIds settings)
            + length (safeInAreaPoints_d points denseIds settings)"
    unfolding denseInAreaPoints_d_def safeInAreaPoints_d_def
    by (rule sum_length_filter_compl[symmetric])
  then have st: "total (stats_d res) = length points"
      "inArea (stats_d res) = denseInArea (stats_d res) + safeInArea (stats_d res)"
      "picked (stats_d res) = length (route_d res)"
    by (simp_all add: s routeStats_d_def)
  have "p \<in> set points \<and> id_d p \<notin> denseIds
           \<and> (flt (Fin 0) (maxAreaRadius_d settings) \<longrightarrow>
                fle (dist2_d (center_d settings) p)
                    (fmul (maxAreaRadius_d settings) (maxAreaRadius_d settings)))"
    if "p \<in> set (route_d res)" for p
  proof -
    from that r have "p \<in> set (safeInAreaPoints_d points denseIds settings)" by blast
    then show ?thesis
      by (auto simp: safeInAreaPoints_d_def inAreaPoints_d_def maxAreaR2_d_def)
  qed
  with st show ?thesis by blast
qed

theorem generateAutoRoute_d_stats_and_area_witness:
  "generateAutoRoute_d [edgeA, edgeB] {} edgeSettings = Some (Inr edgeResult)
   \<and> edgeB \<in> set (route_d edgeResult)
   \<and> flt (Fin 0) (maxAreaRadius_d edgeSettings)
   \<and> total (stats_d edgeResult) = length [edgeA, edgeB]
   \<and> inArea (stats_d edgeResult) = denseInArea (stats_d edgeResult) + safeInArea (stats_d edgeResult)
   \<and> picked (stats_d edgeResult) = length (route_d edgeResult)
   \<and> edgeB \<in> set [edgeA, edgeB] \<and> id_d edgeB \<notin> {}
   \<and> fle (dist2_d (center_d edgeSettings) edgeB)
          (fmul (maxAreaRadius_d edgeSettings) (maxAreaRadius_d edgeSettings))"
proof -
  have r: "generateAutoRoute_d [edgeA, edgeB] {} edgeSettings = Some (Inr edgeResult)"
    by (simp add: edge_route edgeResult_def)
  have m: "edgeB \<in> set (route_d edgeResult)" by (simp add: edgeResult_def)
  have a: "flt (Fin 0) (maxAreaRadius_d edgeSettings)" by simp
  note t = generateAutoRoute_d_stats_and_area[OF r]
  from t have s: "total (stats_d edgeResult) = length [edgeA, edgeB]
      \<and> inArea (stats_d edgeResult) = denseInArea (stats_d edgeResult) + safeInArea (stats_d edgeResult)
      \<and> picked (stats_d edgeResult) = length (route_d edgeResult)"
    by blast
  from t m have "edgeB \<in> set [edgeA, edgeB] \<and> id_d edgeB \<notin> {}
      \<and> (flt (Fin 0) (maxAreaRadius_d edgeSettings) \<longrightarrow>
            fle (dist2_d (center_d edgeSettings) edgeB)
                (fmul (maxAreaRadius_d edgeSettings) (maxAreaRadius_d edgeSettings)))"
    by blast
  with a have p: "edgeB \<in> set [edgeA, edgeB] \<and> id_d edgeB \<notin> {}
      \<and> fle (dist2_d (center_d edgeSettings) edgeB)
             (fmul (maxAreaRadius_d edgeSettings) (maxAreaRadius_d edgeSettings))"
    by blast
  from r m a s p show ?thesis by blast
qed

section \<open>Cell coordinates beyond \<open>2\<^sup>5\<^sup>3\<close>\<close>

lemma rnd_2_53 [simp]:
  "rnd 9007199254740992 = Fin 9007199254740992"
  "rnd 9007199254740993 = Fin 9007199254740992"
  "rnd 9007199254740996 = Fin 9007199254740996"
  "rnd 9007199254740997 = Fin 9007199254740996"
  using rnd_eval[of 9007199254740992 53 2 4503599627370496]
        rnd_eval[of 9007199254740993 53 2 4503599627370496]
        rnd_eval[of 9007199254740996 53 2 4503599627370498]
        rnd_eval[of 9007199254740997 53 2 4503599627370498]
  by (simp_all add: roundHalfEven_def maxDouble_def)

lemma far_fields [simp]:
  "x_d farPoint = Fin 9007199254740992" "y_d farPoint = Fin 0" "id_d farPoint = Fin 1"
  by (simp_all add: farPoint_def)

lemma far_within [simp]: "withinR2_d (Fin 1) farPoint farPoint"
  by (simp add: withinR2_d_def fsub_def fle_def feq_def)

lemma far_index:
  "buildSpatialIndex_d [farPoint] (Fin 1) spawnXY_d =
     \<lparr>cellSize_d = Fin 1, cells_d = [((Fin 9007199254740992, Fin 0), [farPoint])]\<rparr>"
  by (simp add: buildSpatialIndex_d_def addToCell_d_def spawnXY_d_def toCell_d_def cellKey_d_def Let_def)

text \<open>
  Claim C1 says that for \<open>radius > 0\<close> the count of a point is the number of points within
  \<open>radius\<close> of it, as a scan of the whole list finds. For a lone point at \<open>x = 2\<^sup>5\<^sup>3\<close> and
  \<open>radius = 1\<close> the cell offsets 0 and 1 lead to the same cell, \<open>2\<^sup>5\<^sup>3 + 1\<close> being rounded to
  \<open>2\<^sup>5\<^sup>3\<close>: the bucket of the point is read twice and the count is 2, in a list of one point.
\<close>

theorem computeNeighborCounts_d_counts_twice:
  "computeNeighborCounts_d [farPoint] (Fin 1) = Some [id_d farPoint \<mapsto> Fin 2]
   \<and> length (filter (withinR2_d (fmul (Fin 1) (Fin 1)) farPoint) [farPoint]) = 1"
  by (simp add: computeNeighborCounts_d_def far_index countNeighbors_d_def countBucket_d_def
        toCell_d_def cellKey_d_def loop_eval fle_def feq_def)

section \<open>A scan that never ends\<close>

lemma stall_fields [simp]:
  "x_d stallA = Fin 9007199254740992" "y_d stallA = Fin 0" "id_d stallA = Fin 1"
  "x_d stallB = Fin 9007199254740996" "y_d stallB = Fin 0" "id_d stallB = Fin 2"
  "x_d stallDense = Fin 9007199254740992" "y_d stallDense = Fin 1024" "id_d stallDense = Fin 3"
  by (simp_all add: stallA_def stallB_def stallDense_def)

lemma stall_settings [simp]:
  "center_d stallSettings = \<lparr>x_d = Fin 9007199254740992, y_d = Fin 0\<rparr>"
  "maxAreaRadius_d stallSettings = Fin 0"
  "maxStepDistance_d stallSettings = Fin 0"
  "maxWaypoints_d stallSettings = Fin 2"
  "avoidDenseTravelRadius_d stallSettings = Fin 1"
  by (simp_all add: stallSettings_def)

lemma stall_dist2 [simp]:
  "dist2_d \<lparr>x_d = Fin 9007199254740992, y_d = Fin 0\<rparr> stallA = Fin 0"
  "dist2_d \<lparr>x_d = Fin 9007199254740992, y_d = Fin 0\<rparr> stallB = Fin 16"
  "dist2_d \<lparr>x_d = Fin 9007199254740992, y_d = Fin 0\<rparr> stallDense = Fin 1048576"
  "dist2_d stallA stallB = Fin 16"
  by (simp_all add: dist2_d_def fsub_def)

lemma stall_areas:
  "safeInAreaPoints_d [stallA, stallB, stallDense] {Fin 3} stallSettings = [stallA, stallB]"
  "denseForTravel_d [stallA, stallB, stallDense] {Fin 3} stallSettings = [stallDense]"
  by (simp_all add: inAreaPoints_d_def safeInAreaPoints_d_def denseForTravel_d_def
        maxAreaR2_d_def travelR2_d_def fle_def feq_def)

lemma stall_index:
  "buildSpatialIndex_d [stallDense] (Fin 1) spawnXY_d =
     \<lparr>cellSize_d = Fin 1, cells_d = [((Fin 9007199254740992, Fin 1024), [stallDense])]\<rparr>"
  by (simp add: buildSpatialIndex_d_def addToCell_d_def spawnXY_d_def toCell_d_def cellKey_d_def Let_def)

lemma stallEnv_fields:
  "envMaxWaypoints_d stallEnv = Fin 2"
  "envMaxStep_d stallEnv = Fin 0"
  "envMaxStep2_d stallEnv = PInf"
  "envAvoidRadius_d stallEnv = Fin 1"
  "envCenter_d stallEnv = \<lparr>x_d = Fin 9007199254740992, y_d = Fin 0\<rparr>"
  "envSafeInArea_d stallEnv = [stallA, stallB]"
  "envSafeIndex_d stallEnv = None"
  "envDenseIndex_d stallEnv =
     Some \<lparr>cellSize_d = Fin 1, cells_d = [((Fin 9007199254740992, Fin 1024), [stallDense])]\<rparr>"
  "envStepNeighborCounts_d stallEnv = Map.empty"
  by (simp_all add: stallEnv_def routeEnv_d_def Let_def stall_areas stall_index routeMaxWaypoints_d_def
        routeDenseIndex_d_def fmax_def)

lemma stall_starts: "startCandidates_d stallEnv = Inr [stallA, stallB]"
  by (simp add: startCandidates_d_def scoredStarts_d_def sortCmp_d_def cmpStarts_d_def localOf_d_def
        stallEnv_fields closestToCenter_d_def pushStart_d_def jsNth_def Let_def fsub_def feq_def
        upt_rec[of 0] upt_rec[of 1] upt_rec[of 2])

text \<open>
  The row scan of \<open>segmentAvoidsDense\<close> from \<open>stallA\<close> to \<open>stallB\<close> runs over the cells
  \<open>2\<^sup>5\<^sup>3 - 1\<close> to \<open>2\<^sup>5\<^sup>3 + 4\<close>; at \<open>2\<^sup>5\<^sup>3\<close> the counter stops growing.
\<close>

lemma stall_scan:
  "segmentAvoidsDense_d stallA stallB
     (Some \<lparr>cellSize_d = Fin 1, cells_d = [((Fin 9007199254740992, Fin 1024), [stallDense])]\<rparr>)
     (Fin 1) = None"
proof -
  let ?cells = "[((Fin 9007199254740992, Fin 1024), [stallDense])]"
  let ?row = "\<lambda>cy cx. Some (case map_of ?cells (cellKey_d cx cy) of
                                   None \<Rightarrow> True
                                 | Some bucket \<Rightarrow>
                                     list_all (\<lambda>dense. \<not> fle (dist2PointToSegment_d (spawnXY_d dense) stallA stallB)
                                                            (Fin 1)) bucket)"
  have stuck: "forUpAll (Fin 9007199254740992) (Fin 9007199254740996) (?row (Fin (- 1))) = None"
    by (rule forUpAll_stalls) (simp_all add: fle_def cellKey_d_def)
  have next_cell: "fadd (Fin 9007199254740991) (Fin 1) = Fin 9007199254740992" by simp
  have step: "forUpAll (Fin 9007199254740991) (Fin 9007199254740996) (?row (Fin (- 1)))
          = forUpAll (fadd (Fin 9007199254740991) (Fin 1)) (Fin 9007199254740996) (?row (Fin (- 1)))"
    by (rule forUpAll_step) (simp_all add: fle_def cellKey_d_def)
  have row: "forUpAll (Fin 9007199254740991) (Fin 9007199254740996) (?row (Fin (- 1))) = None"
    by (rule trans[OF step[unfolded next_cell] stuck])
  have scan: "forUpAll (Fin (- 1)) (Fin 1)
          (\<lambda>cy. forUpAll (Fin 9007199254740991) (Fin 9007199254740996) (?row cy)) = None"
    by (rule forUpAll_None) (simp add: fle_def, rule row)
  have "segmentAvoidsDense_d stallA stallB
     (Some \<lparr>cellSize_d = Fin 1, cells_d = ?cells\<rparr>) (Fin 1)
     = forUpAll (Fin (- 1)) (Fin 1)
          (\<lambda>cy. forUpAll (Fin 9007199254740991) (Fin 9007199254740996) (?row cy))"
    by (simp add: segmentAvoidsDense_d_def Let_def toCell_d_def fmin_def fmax_def fsub_def
          del: map_of.simps)
  then show ?thesis by (simp only: scan)
qed

lemma stall_pick: "pickBest_d stallEnv stallA {Fin 1} = None"
  by (simp add: pickBest_d_def stepCandidates_d_def usesIndex_d_def stallEnv_fields
        considerCandidate_d_def stall_scan feq_def Let_def)

lemma stall_walk: "greedyLoop_d stallEnv [stallA] {Fin 1} = None"
  by (subst greedyLoop_d.simps) (simp add: stallEnv_fields ofNat_def stall_pick)

text \<open>
  Claim C9 says that the three entry points return on every finite input. For two safe points
  at \<open>x = 2\<^sup>5\<^sup>3\<close> and \<open>x = 2\<^sup>5\<^sup>3 + 4\<close>, a dense point and an avoidance radius of 1,
  \<open>generateAutoRoute\<close> never returns: no path raises, but the first walk asks
  \<open>segmentAvoidsDense\<close> about the segment between the two safe points, and its scan of the
  cells never ends.
\<close>

theorem generateAutoRoute_d_never_returns:
  "generateAutoRoute_d [stallA, stallB, stallDense] {Fin 3} stallSettings = None"
proof -
  have mw: "routeMaxWaypoints_d stallSettings = Fin 2"
    by (simp add: routeMaxWaypoints_d_def fmax_def)
  show ?thesis
    unfolding generateAutoRoute_d_def Let_def stall_areas mw
    by (simp add: feq_def stallEnv_def[symmetric] stall_starts jsNth_def
          buildGreedyPath_d_def stall_walk)
qed

section \<open>Segments and dense points in double arithmetic\<close>


lemma rnd_half [simp]: "rnd (1 / 2) = Fin (1 / 2)"
  using rnd_exact[OF representable_inverse_pow2[of 1]] by simp

lemma mid_fields [simp]:
  "x_d midA = Fin 0" "y_d midA = Fin 0" "x_d midB = Fin 4" "y_d midB = Fin 0"
  "x_d midDense = Fin 2" "y_d midDense = Fin 0"
  by (simp_all add: midA_def midB_def midDense_def)







lemma short_order [simp]:
  "0 < shortLen" "0 < shortReach" "shortLen \<noteq> 0" "shortReach \<noteq> 0" "\<not> shortLen < 0"
  by (simp_all add: shortLen_def shortReach_def)



lemma short_fields [simp]:
  "x_d shortA = Fin 0" "y_d shortA = Fin 0" "x_d shortB = Fin shortLen" "y_d shortB = Fin 0"
  "x_d shortDense = Fin shortHalf" "y_d shortDense = Fin 0"
  by (simp_all add: shortA_def shortB_def shortDense_def)






end
